theory Spec2Isabelle
  imports Complex_Main
begin

section \<open>Data model\<close>

text \<open>
  Modelled from the spec: the declarations of \<open>Item\<close>, \<open>Warehouse\<close>, \<open>Category\<close>,
  \<open>Transaction\<close> and \<open>Notification\<close>, which the sources import from \<open>types.ts\<close>.
  The fields are those of the spec's data model, under the names the components use
  (\<open>item.warehouseId\<close>, \<open>tx.targetWarehouseId\<close>, \<open>wh.prefix\<close>, \<open>cat.code\<close>).
  Quantities are integers, as the request forms produce them with \<open>parseInt\<close>; the
  cost fields are only ever copied by the code modelled here.
\<close>

datatype ItemStatus = RAW | FINISHED | GOOD_AS_NEW | OLD_USED

record Item =
  item_id :: string
  item_name :: string
  item_warehouseId :: string
  item_categoryId :: string
  quantity :: int
  baseCost :: rat
  freight :: rat
  duties :: rat
  taxes :: rat
  trueUnitCost :: rat
  item_status :: ItemStatus
  barcode :: string
  lastUpdated :: string

record Warehouse =
  wh_id :: string
  wh_name :: string
  prefix :: string

record Category =
  cat_id :: string
  cat_name :: string
  code :: string
  parentId :: "string option"

datatype TxType = STOCK_IN | STOCK_OUT | TRANSFER

datatype TxStatus = PENDING | APPROVED | REJECTED

record Transaction =
  tx_id :: string
  tx_type :: TxType
  itemId :: string
  tx_warehouseId :: string
  targetWarehouseId :: "string option"
  tx_quantity :: int
  tx_status :: TxStatus
  staffName :: string
  tx_timestamp :: string
  rejectionReason :: "string option"

record Notification =
  notif_id :: string
  title :: string
  message :: string
  read :: bool
  notif_timestamp :: string

section \<open>The sync queue (src/utils/db.ts)\<close>

text \<open>
  \<open>payload: unknown\<close> holds either the whole transaction (request handlers) or the
  object \<open>{ txId }\<close> (approval) or \<open>{ txId, reason }\<close> (rejection).
\<close>

datatype Payload =
    TxPayload Transaction
  | ApprovePayload string
  | RejectPayload string string

datatype SyncStatus = S_PENDING | S_SYNCED | S_FAILED

record SyncAction =
  sa_id :: "nat option"
  sa_type :: string
  payload :: Payload
  sa_status :: SyncStatus
  sa_timestamp :: string
  retries :: nat

text \<open>
  The object store \<open>syncQueue\<close> is created with \<open>keyPath: 'id', autoIncrement: true\<close>.
  It is a table of rows in ascending key order together with the key generator.
  \<open>dbGetAll\<close> reads the rows in key order, \<open>dbGet\<close> looks one key up, \<open>dbPut\<close>
  stores a value under its \<open>id\<close>, or under a generated key when it has none.
  These are the operations as they succeed. A request that IndexedDB refuses rejects
  its promise (\<open>req.onerror\<close>); what becomes of that is written where the operation is
  called: in \<open>syncNow\<close> and in the handlers of \<open>App.tsx\<close>.
\<close>

record SyncStore =
  rows :: "(nat \<times> SyncAction) list"
  next_key :: nat

fun upsert :: "nat \<Rightarrow> SyncAction \<Rightarrow> (nat \<times> SyncAction) list \<Rightarrow> (nat \<times> SyncAction) list" where
  "upsert k v [] = [(k, v)]"
| "upsert k v ((j, w) # rs) =
     (if k = j then (k, v) # rs
      else if k < j then (k, v) # (j, w) # rs
      else (j, w) # upsert k v rs)"

definition dbGetAll :: "SyncStore \<Rightarrow> SyncAction list" where
  "dbGetAll s = map snd (rows s)"

definition dbGet :: "SyncStore \<Rightarrow> nat \<Rightarrow> SyncAction option" where
  "dbGet s k = map_of (rows s) k"

definition dbPut :: "SyncAction \<Rightarrow> SyncStore \<Rightarrow> SyncStore" where
  "dbPut v s =
     (case sa_id v of
        None \<Rightarrow>
          s\<lparr>rows := upsert (next_key s) (v\<lparr>sa_id := Some (next_key s)\<rparr>) (rows s),
            next_key := next_key s + 1\<rparr>
      | Some k \<Rightarrow>
          s\<lparr>rows := upsert k v (rows s),
            next_key := (if next_key s \<le> k then k + 1 else next_key s)\<rparr>)"

text \<open>The argument of \<open>enqueueSyncAction\<close>: \<open>Omit<SyncAction, 'id' | 'status' | 'retries'>\<close>.\<close>

record SyncInput =
  in_type :: string
  in_payload :: Payload
  in_timestamp :: string

definition enqueueSyncAction :: "SyncInput \<Rightarrow> SyncStore \<Rightarrow> SyncStore" where
  "enqueueSyncAction action s =
     dbPut \<lparr>sa_id = None, sa_type = in_type action, payload = in_payload action,
            sa_status = S_PENDING, sa_timestamp = in_timestamp action, retries = 0\<rparr> s"

definition getPendingSyncActions :: "SyncStore \<Rightarrow> SyncAction list" where
  "getPendingSyncActions s = filter (\<lambda>a. sa_status a = S_PENDING) (dbGetAll s)"

definition markSyncActionSynced :: "nat \<Rightarrow> SyncStore \<Rightarrow> SyncStore" where
  "markSyncActionSynced k s =
     (case dbGet s k of
        None \<Rightarrow> s
      | Some action \<Rightarrow> dbPut (action\<lparr>sa_status := S_SYNCED\<rparr>) s)"

definition markSyncActionFailed :: "nat \<Rightarrow> SyncStore \<Rightarrow> SyncStore" where
  "markSyncActionFailed k s =
     (case dbGet s k of
        None \<Rightarrow> s
      | Some action \<Rightarrow>
          dbPut (action\<lparr>sa_status := S_FAILED, retries := retries action + 1\<rparr>) s)"

text \<open>
  The store as IndexedDB keeps it: keys ascending, every key below the generator, and
  every stored value carrying its key in \<open>id\<close>.
\<close>

definition store_ok :: "SyncStore \<Rightarrow> bool" where
  "store_ok s \<longleftrightarrow>
     sorted_wrt (<) (map fst (rows s)) \<and>
     list_all (\<lambda>(k, v). k < next_key s \<and> sa_id v = Some k) (rows s)"

definition empty_store :: SyncStore where
  "empty_store = \<lparr>rows = [], next_key = 1\<rparr>"

text \<open>The row \<open>enqueueSyncAction\<close> writes, once the store has given it the key \<open>k\<close>.\<close>

definition stored :: "nat \<Rightarrow> SyncInput \<Rightarrow> SyncAction" where
  "stored k action = \<lparr>sa_id = Some k, sa_type = in_type action, payload = in_payload action,
            sa_status = S_PENDING, sa_timestamp = in_timestamp action, retries = 0\<rparr>"

section \<open>The sync cycle (src/hooks/useOfflineSync.ts)\<close>

datatype error = StorageFailure

record HookState =
  isOnline :: bool
  isSyncing :: bool
  pendingCount :: nat

text \<open>
  The requests a cycle sends to IndexedDB can fail one by one. \<open>outcomes\<close> lists, in
  the order the requests are issued, whether each succeeds; past the end of the list
  every request succeeds, so \<open>[]\<close> is a store that works throughout.
\<close>

definition request_ok :: "bool list \<Rightarrow> bool \<times> bool list" where
  "request_ok outcomes = (case outcomes of [] \<Rightarrow> (True, []) | ok # rest \<Rightarrow> (ok, rest))"

text \<open>
  \<open>await markSyncActionSynced(id)\<close> and \<open>await markSyncActionFailed(id)\<close>: a
  \<open>dbGet\<close> request, and a \<open>dbPut\<close> request when the record is there. When either
  request fails the call rejects and the store is as it was. The result says whether
  the call returned, and gives the store and the outcomes not yet used.
\<close>

definition awaited_mark ::
  "(nat \<Rightarrow> SyncStore \<Rightarrow> SyncStore) \<Rightarrow> nat \<Rightarrow> SyncStore \<Rightarrow> bool list
     \<Rightarrow> bool \<times> SyncStore \<times> bool list" where
  "awaited_mark mark k s outcomes =
     (case request_ok outcomes of (got, rest) \<Rightarrow>
        if \<not> got then (False, s, rest)
        else (case dbGet s k of
                None \<Rightarrow> (True, s, rest)
              | Some action \<Rightarrow>
                  (case request_ok rest of (put, rest') \<Rightarrow>
                     if put then (True, mark k s, rest') else (False, s, rest'))))"

text \<open>
  The two loops \<open>for (const action of pending) if (action.id !== undefined) await ...\<close>:
  \<open>mark_each\<close> is the loop on a store that works, \<open>mark_loop\<close> the loop that stops
  at the first call that rejects.
\<close>

fun mark_each :: "(nat \<Rightarrow> SyncStore \<Rightarrow> SyncStore) \<Rightarrow> SyncAction list \<Rightarrow> SyncStore \<Rightarrow> SyncStore" where
  "mark_each mark [] s = s"
| "mark_each mark (action # rest) s =
     mark_each mark rest (case sa_id action of None \<Rightarrow> s | Some k \<Rightarrow> mark k s)"

fun mark_loop ::
  "(nat \<Rightarrow> SyncStore \<Rightarrow> SyncStore) \<Rightarrow> SyncAction list \<Rightarrow> SyncStore \<Rightarrow> bool list
     \<Rightarrow> bool \<times> SyncStore \<times> bool list" where
  "mark_loop mark [] s outcomes = (True, s, outcomes)"
| "mark_loop mark (action # rest) s outcomes =
     (case sa_id action of
        None \<Rightarrow> mark_loop mark rest s outcomes
      | Some k \<Rightarrow>
          (case awaited_mark mark k s outcomes of
             (True, s', outcomes') \<Rightarrow> mark_loop mark rest s' outcomes'
           | (False, s', outcomes') \<Rightarrow> (False, s', outcomes')))"

text \<open>
  \<open>syncNow\<close>. The replay callback \<open>onSync\<close> is a parameter: it is absent or present,
  and a call of it either resolves (\<open>True\<close>) or throws (\<open>False\<close>). The promise of
  \<open>syncNow\<close> resolves (\<open>Inr\<close>) or rejects (\<open>Inl\<close>); either way the result holds
  the store, the hook's state and the list of batches the callback was called with.
  The first read rejecting, \<open>syncNow\<close> rejects before any state is set. A mark
  rejecting inside \<open>try\<close> is caught like a throwing callback: the \<open>catch\<close> block
  marks the whole batch failed; a mark rejecting there makes \<open>syncNow\<close> reject, after
  \<open>finally\<close> has reset \<open>isSyncing\<close>.
\<close>

definition catch_block ::
  "SyncAction list \<Rightarrow> SyncStore \<Rightarrow> HookState \<Rightarrow> bool list
     \<Rightarrow> (error \<times> SyncStore \<times> HookState \<times> SyncAction list list)
         + (SyncStore \<times> HookState \<times> SyncAction list list)" where
  "catch_block pending s h outcomes =
     (case mark_loop markSyncActionFailed pending s outcomes of
        (True, s', _) \<Rightarrow> Inr (s', h\<lparr>isSyncing := False\<rparr>, [pending])
      | (False, s', _) \<Rightarrow> Inl (StorageFailure, s', h\<lparr>isSyncing := False\<rparr>, [pending]))"

definition syncNow ::
  "bool list \<Rightarrow> (SyncAction list \<Rightarrow> bool) option \<Rightarrow> SyncStore \<times> HookState
     \<Rightarrow> (error \<times> SyncStore \<times> HookState \<times> SyncAction list list)
         + (SyncStore \<times> HookState \<times> SyncAction list list)" where
  "syncNow outcomes onSync sh =
     (case sh of (s, h) \<Rightarrow>
      (case request_ok outcomes of (first, rest) \<Rightarrow>
        if \<not> first then Inl (StorageFailure, s, h, [])
        else
          let pending = getPendingSyncActions s;
              h1 = h\<lparr>pendingCount := length pending\<rparr>
          in case onSync of
               None \<Rightarrow> Inr (s, h1, [])
             | Some callback \<Rightarrow>
                 if pending = [] then Inr (s, h1, [])
                 else
                   let h2 = h1\<lparr>isSyncing := True\<rparr>
                   in if callback pending
                      then (case mark_loop markSyncActionSynced pending s rest of
                              (True, s', _) \<Rightarrow>
                                Inr (s', h2\<lparr>pendingCount := 0, isSyncing := False\<rparr>, [pending])
                            | (False, s', rest') \<Rightarrow> catch_block pending s' h2 rest')
                      else catch_block pending s h2 rest))"

section \<open>The environment of a handler call\<close>

text \<open>
  What a handler reads from outside the application state: the clock (\<open>Date.now()\<close>, a
  time value, at most 8.64e15, and \<open>new Date().toISOString()\<close>), the random numbers
  (\<open>Math.floor(Math.random() * 1000)\<close> for item ids,
  \<open>Math.random().toString(36).substr(2, 9)\<close> for notification ids), the text a
  template literal gives for a quantity (\<open>${qty}\<close>, the runtime's conversion of a
  Number to a string), and whether the IndexedDB write of the call succeeds
  (\<open>req.onsuccess\<close>) or fails (\<open>req.onerror\<close>). One value of each is read per
  handler call.
\<close>

record Env =
  now :: nat
  iso :: string
  random1000 :: nat
  random_id :: string
  number_text :: "int \<Rightarrow> string"
  db_up :: bool

subsection \<open>Numbers in template literals\<close>

text \<open>
  The decimal digits of a natural number: what a template literal prints for
  \<open>Date.now()\<close> and for a random number below 1000.
\<close>

fun show_nat :: "nat \<Rightarrow> string" where
  "show_nat n =
     (if n < 10 then [''0123456789'' ! n]
      else show_nat (n div 10) @ [''0123456789'' ! (n mod 10)])"

declare show_nat.simps [simp del]

text \<open>\<open>String.prototype.split\<close> with a one-character separator, and the read \<open>[1]\<close> of its
  result inside a template literal (\<open>undefined\<close> prints as such).\<close>

fun split_on :: "char \<Rightarrow> string \<Rightarrow> string list" where
  "split_on c [] = [[]]"
| "split_on c (x # xs) =
     (if x = c then [] # split_on c xs
      else (case split_on c xs of
              [] \<Rightarrow> [[x]]
            | w # ws \<Rightarrow> (x # w) # ws))"

definition part1 :: "string list \<Rightarrow> string" where
  "part1 ps = (case ps of _ # p # _ \<Rightarrow> p | _ \<Rightarrow> ''undefined'')"

text \<open>\<open>x?.field || 'default'\<close>: the default stands in when the object is missing or the
  field is the empty string.\<close>

definition or_default :: "string option \<Rightarrow> string \<Rightarrow> string" where
  "or_default v d = (case v of None \<Rightarrow> d | Some s \<Rightarrow> if s = [] then d else s)"

text \<open>\<open>${x?.name}\<close> in a template literal.\<close>

definition or_undefined :: "string option \<Rightarrow> string" where
  "or_undefined v = (case v of None \<Rightarrow> ''undefined'' | Some s \<Rightarrow> s)"

fun type_name :: "TxType \<Rightarrow> string" where
  "type_name STOCK_IN = ''STOCK_IN''"
| "type_name STOCK_OUT = ''STOCK_OUT''"
| "type_name TRANSFER = ''TRANSFER''"

section \<open>The application state and its handlers (App.tsx)\<close>

datatype ScanFlow = FLOW_IN | FLOW_OUT | FLOW_TRANSFER

text \<open>The React state of \<open>App\<close> that the handlers touch, and the IndexedDB sync queue.\<close>

record AppState =
  warehouses :: "Warehouse list"
  items :: "Item list"
  categories :: "Category list"
  transactions :: "Transaction list"
  notifications :: "Notification list"
  scannedItem :: "Item option"
  activeScanFlow :: "ScanFlow option"
  syncQueue :: SyncStore

definition addNotification :: "Env \<Rightarrow> string \<Rightarrow> string \<Rightarrow> Notification list \<Rightarrow> Notification list" where
  "addNotification env t m prev =
     \<lparr>notif_id = random_id env, title = t, message = m, read = False,
      notif_timestamp = iso env\<rparr> # prev"

text \<open>
  The handlers call \<open>enqueueSyncAction(...)\<close> without \<open>await\<close> and without a
  \<open>catch\<close>: when the write fails the promise rejects unobserved, the queue is as it
  was, and the handler goes on.
\<close>

definition enqueue_unawaited :: "Env \<Rightarrow> SyncInput \<Rightarrow> SyncStore \<Rightarrow> SyncStore" where
  "enqueue_unawaited env action q = (if db_up env then enqueueSyncAction action q else q)"

definition handleStockInRequest :: "Env \<Rightarrow> Item \<Rightarrow> int \<Rightarrow> AppState \<Rightarrow> AppState" where
  "handleStockInRequest env item qty st =
     (let newTx = \<lparr>tx_id = ''TX-'' @ show_nat (now env), tx_type = STOCK_IN,
                    itemId = item_id item, tx_warehouseId = item_warehouseId item,
                    targetWarehouseId = None, tx_quantity = qty, tx_status = PENDING,
                    staffName = ''John Staff'', tx_timestamp = iso env,
                    rejectionReason = None\<rparr>
      in st\<lparr>transactions := transactions st @ [newTx],
            notifications := addNotification env ''Approval Required''
               (''Stock In of '' @ number_text env qty @ '' units of '' @ item_name item)
               (notifications st),
            syncQueue := enqueue_unawaited env
               \<lparr>in_type = ''STOCK_IN'', in_payload = TxPayload newTx,
                in_timestamp = tx_timestamp newTx\<rparr> (syncQueue st),
            scannedItem := None,
            activeScanFlow := None\<rparr>)"

definition handleStockOutRequest :: "Env \<Rightarrow> Item \<Rightarrow> int \<Rightarrow> AppState \<Rightarrow> AppState" where
  "handleStockOutRequest env item qty st =
     (let newTx = \<lparr>tx_id = ''TX-'' @ show_nat (now env), tx_type = STOCK_OUT,
                    itemId = item_id item, tx_warehouseId = item_warehouseId item,
                    targetWarehouseId = None, tx_quantity = qty, tx_status = PENDING,
                    staffName = ''John Staff'', tx_timestamp = iso env,
                    rejectionReason = None\<rparr>
      in st\<lparr>transactions := transactions st @ [newTx],
            notifications := addNotification env ''Approval Required''
               (''Stock Out of '' @ number_text env qty @ '' units of '' @ item_name item)
               (notifications st),
            syncQueue := enqueue_unawaited env
               \<lparr>in_type = ''STOCK_OUT'', in_payload = TxPayload newTx,
                in_timestamp = tx_timestamp newTx\<rparr> (syncQueue st),
            scannedItem := None,
            activeScanFlow := None\<rparr>)"

definition handleTransferRequest :: "Env \<Rightarrow> Item \<Rightarrow> string \<Rightarrow> int \<Rightarrow> AppState \<Rightarrow> AppState" where
  "handleTransferRequest env item targetWhId qty st =
     (let targetWh = find (\<lambda>w. wh_id w = targetWhId) (warehouses st);
          newTx = \<lparr>tx_id = ''TR-'' @ show_nat (now env), tx_type = TRANSFER,
                    itemId = item_id item, tx_warehouseId = item_warehouseId item,
                    targetWarehouseId = Some targetWhId, tx_quantity = qty, tx_status = PENDING,
                    staffName = ''John Staff'', tx_timestamp = iso env,
                    rejectionReason = None\<rparr>
      in st\<lparr>transactions := transactions st @ [newTx],
            notifications := addNotification env ''Transfer Pending''
               (''Relocating '' @ number_text env qty @ '' units of '' @ item_name item @ '' to '' @
                  or_undefined (map_option wh_name targetWh))
               (notifications st),
            syncQueue := enqueue_unawaited env
               \<lparr>in_type = ''TRANSFER'', in_payload = TxPayload newTx,
                in_timestamp = tx_timestamp newTx\<rparr> (syncQueue st),
            scannedItem := None,
            activeScanFlow := None\<rparr>)"

text \<open>
  \<open>prev.map(callback)\<close> where the callback, besides returning the new element, queues
  state updates and writes to the queue: the elements are visited in order and the
  effects of each visit are applied before the next. The updater runs once per call of
  the handler, as in a production build of React.
\<close>

fun map_effect :: "('a \<Rightarrow> 's \<Rightarrow> 'b \<times> 's) \<Rightarrow> 'a list \<Rightarrow> 's \<Rightarrow> 'b list \<times> 's" where
  "map_effect f [] s = ([], s)"
| "map_effect f (x # xs) s =
     (case f x s of (y, s1) \<Rightarrow>
        (case map_effect f xs s1 of (ys, s2) \<Rightarrow> (y # ys, s2)))"

text \<open>The updater passed to \<open>setItems\<close> by \<open>handleApproveTransaction\<close>.\<close>

definition approve_items ::
  "Env \<Rightarrow> Warehouse list \<Rightarrow> Category list \<Rightarrow> Item \<Rightarrow> Transaction \<Rightarrow> Item list \<Rightarrow> Item list" where
  "approve_items env whs cats sourceItem tx currItems =
     (let updated = map (\<lambda>i. if item_id i = itemId tx
                              then i\<lparr>quantity := quantity i - tx_quantity tx, lastUpdated := iso env\<rparr>
                              else i) currItems
      in case targetWarehouseId tx of
           None \<Rightarrow> updated
         | Some target \<Rightarrow>
             if tx_type tx = TRANSFER \<and> target \<noteq> [] then
               (let targetWarehouse = find (\<lambda>w. wh_id w = target) whs;
                    targetCategory = find (\<lambda>c. cat_id c = item_categoryId sourceItem) cats;
                    existingInTarget = find (\<lambda>i. item_warehouseId i = target \<and>
                                                 item_categoryId i = item_categoryId sourceItem \<and>
                                                 item_name i = item_name sourceItem) updated
                in case existingInTarget of
                     Some existing \<Rightarrow>
                       map (\<lambda>i. if item_id i = item_id existing
                                then i\<lparr>quantity := quantity i + tx_quantity tx, lastUpdated := iso env\<rparr>
                                else i) updated
                   | None \<Rightarrow>
                       (let newId = ''it-'' @ show_nat (now env) @ ''-'' @ show_nat (random1000 env);
                            newItem = sourceItem
                              \<lparr>item_id := newId,
                               item_warehouseId := target,
                               quantity := tx_quantity tx,
                               barcode := or_default (map_option prefix targetWarehouse) ''WH'' @ ''-'' @
                                          or_default (map_option code targetCategory) ''GEN'' @ ''-'' @
                                          part1 (split_on CHR ''-'' newId),
                               lastUpdated := iso env\<rparr>
                        in updated @ [newItem]))
             else updated)"

text \<open>
  The callback of \<open>prev.map\<close> in \<open>handleApproveTransaction\<close>. \<open>its\<close>, \<open>whs\<close> and
  \<open>cats\<close> are the \<open>items\<close>, \<open>warehouses\<close> and \<open>categories\<close> the handler closes over.
\<close>

definition approve_tx ::
  "Env \<Rightarrow> Item list \<Rightarrow> Warehouse list \<Rightarrow> Category list \<Rightarrow> string \<Rightarrow> Transaction \<Rightarrow> AppState
     \<Rightarrow> Transaction \<times> AppState" where
  "approve_tx env its whs cats txId tx st =
     (if tx_id tx \<noteq> txId then (tx, st)
      else case find (\<lambda>i. item_id i = itemId tx) its of
             None \<Rightarrow> (tx, st)
           | Some sourceItem \<Rightarrow>
               (tx\<lparr>tx_status := APPROVED\<rparr>,
                st\<lparr>items := approve_items env whs cats sourceItem tx (items st),
                   notifications := addNotification env ''Transaction Approved''
                      (type_name (tx_type tx) @ '' request for '' @ item_name sourceItem @ '' completed.'')
                      (notifications st),
                   syncQueue := enqueue_unawaited env
                      \<lparr>in_type = ''APPROVE'', in_payload = ApprovePayload txId,
                       in_timestamp = iso env\<rparr> (syncQueue st)\<rparr>))"

definition handleApproveTransaction :: "Env \<Rightarrow> string \<Rightarrow> AppState \<Rightarrow> AppState" where
  "handleApproveTransaction env txId st =
     (case map_effect (approve_tx env (items st) (warehouses st) (categories st) txId)
             (transactions st) st of
        (txs, st') \<Rightarrow> st'\<lparr>transactions := txs\<rparr>)"

definition reject_tx ::
  "Env \<Rightarrow> Item list \<Rightarrow> string \<Rightarrow> string \<Rightarrow> Transaction \<Rightarrow> AppState \<Rightarrow> Transaction \<times> AppState" where
  "reject_tx env its txId reason tx st =
     (if tx_id tx \<noteq> txId then (tx, st)
      else
        let sourceItem = find (\<lambda>i. item_id i = itemId tx) its
        in (tx\<lparr>tx_status := REJECTED, rejectionReason := Some reason\<rparr>,
            st\<lparr>notifications := addNotification env ''Transaction Rejected''
                  (type_name (tx_type tx) @ '' request for '' @
                     or_default (map_option item_name sourceItem) ''Item'' @ '' was declined.'')
                  (notifications st),
               syncQueue := enqueue_unawaited env
                  \<lparr>in_type = ''REJECT'', in_payload = RejectPayload txId reason,
                   in_timestamp = iso env\<rparr> (syncQueue st)\<rparr>))"

definition handleRejectTransaction :: "Env \<Rightarrow> string \<Rightarrow> string \<Rightarrow> AppState \<Rightarrow> AppState" where
  "handleRejectTransaction env txId reason st =
     (case map_effect (reject_tx env (items st) txId reason) (transactions st) st of
        (txs, st') \<Rightarrow> st'\<lparr>transactions := txs\<rparr>)"

section \<open>The request form (StockActionModal) and the rejection dialog (Dashboard)\<close>

subsection \<open>\<open>StockActionModal.validateAndConfirm\<close>\<close>

text \<open>
  The component computes \<open>const qty = parseInt(rawQty, 10) || 0\<close> when it renders, and
  \<open>validateAndConfirm\<close> reads that \<open>qty\<close>: a whole number, since \<open>parseInt\<close> gives
  whole numbers or \<open>NaN\<close>, and \<open>NaN || 0\<close> is 0. It is an argument here, ranging over
  the integers (the text of more than 308 digits that \<open>parseInt\<close> reads as
  \<open>Infinity\<close> is left out). The state the function sets is the form's error text;
  \<open>onConfirm\<close> is the handler \<open>App\<close> passes in.
\<close>

definition validateAndConfirm ::
  "Env \<Rightarrow> bool \<Rightarrow> Item \<Rightarrow> int \<Rightarrow> (int \<Rightarrow> 's \<Rightarrow> 's) \<Rightarrow> string option \<times> 's
     \<Rightarrow> string option \<times> 's" where
  "validateAndConfirm env isInbound item qty onConfirm es =
     (case es of (err, st) \<Rightarrow>
        if qty \<le> 0
        then (Some ''Quantity must be at least 1.'', st)
        else if \<not> isInbound \<and> qty > quantity item
        then (Some (''Only '' @ number_text env (quantity item) @ '' '' @
                (if quantity item = 1 then ''unit'' else ''units'') @
                '' available to stock out.''), st)
        else (err, onConfirm qty st))"

subsection \<open>\<open>Dashboard.handleFinalReject\<close>\<close>

record RejectDialog =
  rejectingTx :: "Transaction option"
  dlg_rejectionReason :: string
  customReason :: string

definition finalReason :: "RejectDialog \<Rightarrow> string" where
  "finalReason d =
     (if dlg_rejectionReason d = ''Other / Custom Reason'' then customReason d
      else dlg_rejectionReason d)"

definition handleFinalReject ::
  "(string \<Rightarrow> string \<Rightarrow> 's \<Rightarrow> 's) option \<Rightarrow> RejectDialog \<Rightarrow> 's \<Rightarrow> RejectDialog \<times> 's" where
  "handleFinalReject onReject d st =
     (case rejectingTx d of
        None \<Rightarrow> (d, st)
      | Some rtx \<Rightarrow>
          (case onReject of
             None \<Rightarrow> (d, st)
           | Some rej \<Rightarrow>
               if finalReason d = [] then (d, st)
               else (\<lparr>rejectingTx = None, dlg_rejectionReason = [], customReason = []\<rparr>,
                     rej (tx_id rtx) (finalReason d) st)))"

text \<open>\<open>App\<close> passes \<open>onReject={handleRejectTransaction}\<close> to the dashboard.\<close>

definition reject :: "Env \<Rightarrow> RejectDialog \<Rightarrow> AppState \<Rightarrow> RejectDialog \<times> AppState" where
  "reject env d st = handleFinalReject (Some (handleRejectTransaction env)) d st"

section \<open>Notions used in the statements\<close>



text \<open>
  What a request handler leaves behind, read off the state after the call: one new
  transaction at the end of the collection, PENDING, for the item and quantity asked;
  the items untouched; and in the queue, when the write went through, one new PENDING
  action of the transaction's type carrying it; when the write failed, nothing.
\<close>

definition request_outcome :: "Env \<Rightarrow> TxType \<Rightarrow> Item \<Rightarrow> int \<Rightarrow> AppState \<Rightarrow> AppState \<Rightarrow> bool" where
  "request_outcome env ty item qty st st' =
     (let newTx = last (transactions st')
      in transactions st' = transactions st @ [newTx] \<and>
         tx_type newTx = ty \<and> itemId newTx = item_id item \<and> tx_quantity newTx = qty \<and>
         tx_status newTx = PENDING \<and>
         items st' = items st \<and>
         (if db_up env
          then dbGetAll (syncQueue st') = dbGetAll (syncQueue st) @
                 [\<lparr>sa_id = Some (next_key (syncQueue st)), sa_type = type_name ty,
                   payload = TxPayload newTx, sa_status = S_PENDING,
                   sa_timestamp = tx_timestamp newTx, retries = 0\<rparr>]
          else syncQueue st' = syncQueue st))"

text \<open>The two item updates of an approval, and the stock of one item read by id.\<close>

definition debit :: "Env \<Rightarrow> Transaction \<Rightarrow> Item \<Rightarrow> Item" where
  "debit env tx i =
     (if item_id i = itemId tx
      then i\<lparr>quantity := quantity i - tx_quantity tx, lastUpdated := iso env\<rparr> else i)"

definition credit :: "Env \<Rightarrow> string \<Rightarrow> int \<Rightarrow> Item \<Rightarrow> Item" where
  "credit env k q i =
     (if item_id i = k then i\<lparr>quantity := quantity i + q, lastUpdated := iso env\<rparr> else i)"

definition quantity_of :: "string \<Rightarrow> Item list \<Rightarrow> int option" where
  "quantity_of k its = map_option quantity (find (\<lambda>i. item_id i = k) its)"


text \<open>The id of the item a transfer creates, and the fields it has in common with its source.\<close>

definition new_item_id :: "Env \<Rightarrow> string" where
  "new_item_id env = ''it-'' @ show_nat (now env) @ ''-'' @ show_nat (random1000 env)"

definition clone_of :: "Item \<Rightarrow> Item \<Rightarrow> bool" where
  "clone_of src i \<longleftrightarrow>
     item_name i = item_name src \<and> item_categoryId i = item_categoryId src \<and>
     baseCost i = baseCost src \<and> freight i = freight src \<and> duties i = duties src \<and>
     taxes i = taxes src \<and> trueUnitCost i = trueUnitCost src \<and> item_status i = item_status src"

definition matches_target :: "string \<Rightarrow> Item \<Rightarrow> Item \<Rightarrow> bool" where
  "matches_target target src i \<longleftrightarrow>
     item_warehouseId i = target \<and> item_categoryId i = item_categoryId src \<and>
     item_name i = item_name src"

text \<open>The object \<open>newItem\<close> an approval builds when the target warehouse has no match.\<close>

definition transferred_item :: "Env \<Rightarrow> Warehouse list \<Rightarrow> Category list \<Rightarrow> Item \<Rightarrow> string \<Rightarrow> int \<Rightarrow> Item" where
  "transferred_item env whs cats src target q =
     src\<lparr>item_id := new_item_id env,
         item_warehouseId := target,
         quantity := q,
         barcode := or_default (map_option prefix (find (\<lambda>w. wh_id w = target) whs)) ''WH'' @ ''-'' @
                    or_default (map_option code (find (\<lambda>c. cat_id c = item_categoryId src) cats)) ''GEN'' @
                    ''-'' @ show_nat (now env),
         lastUpdated := iso env\<rparr>"

section \<open>Example data\<close>

text \<open>A small warehouse, used where a theorem is applied to a concrete state.\<close>

definition actA :: SyncInput where
  "actA = \<lparr>in_type = ''STOCK_IN'', in_payload = ApprovePayload ''A'', in_timestamp = ''t1''\<rparr>"

definition actB :: SyncInput where
  "actB = \<lparr>in_type = ''APPROVE'', in_payload = ApprovePayload ''B'', in_timestamp = ''t2''\<rparr>"


definition failed_once :: SyncAction where
  "failed_once = \<lparr>sa_id = Some 1, sa_type = ''APPROVE'', payload = ApprovePayload ''TX-1'',
      sa_status = S_FAILED, sa_timestamp = ''t1'', retries = 1\<rparr>"

definition synced_row :: SyncAction where
  "synced_row = \<lparr>sa_id = Some 1, sa_type = ''APPROVE'', payload = ApprovePayload ''TX-1'',
      sa_status = S_SYNCED, sa_timestamp = ''t1'', retries = 0\<rparr>"

definition wh1 :: Warehouse where
  "wh1 = \<lparr>wh_id = ''w1'', wh_name = ''Main Hub'', prefix = ''MH''\<rparr>"

definition wh2 :: Warehouse where
  "wh2 = \<lparr>wh_id = ''w2'', wh_name = ''North Depot'', prefix = ''ND''\<rparr>"

definition cat1 :: Category where
  "cat1 = \<lparr>cat_id = ''c1'', cat_name = ''Fasteners'', code = ''FAS'', parentId = None\<rparr>"

definition bolts :: Item where
  "bolts = \<lparr>item_id = ''it-1'', item_name = ''Bolt M8'', item_warehouseId = ''w1'',
     item_categoryId = ''c1'', quantity = 10, baseCost = 2, freight = 1, duties = 0, taxes = 0,
     trueUnitCost = 3, item_status = RAW, barcode = ''MH-FAS-1'', lastUpdated = ''t0''\<rparr>"

text \<open>Plain decimal notation, the text of a quantity in the example environments.\<close>

definition decimal :: "int \<Rightarrow> string" where
  "decimal i = (if i < 0 then CHR ''-'' # show_nat (nat (- i)) else show_nat (nat i))"

definition env1 :: Env where
  "env1 = \<lparr>now = 1723, iso = ''t1'', random1000 = 42, random_id = ''k3x9'',
     number_text = decimal, db_up = True\<rparr>"

definition env2 :: Env where
  "env2 = \<lparr>now = 1810, iso = ''t2'', random1000 = 7, random_id = ''p0q1'',
     number_text = decimal, db_up = True\<rparr>"

definition env_down :: Env where
  "env_down = \<lparr>now = 1723, iso = ''t1'', random1000 = 42, random_id = ''k3x9'',
     number_text = decimal, db_up = False\<rparr>"

definition st0 :: AppState where
  "st0 = \<lparr>warehouses = [wh1, wh2], items = [bolts], categories = [cat1], transactions = [],
     notifications = [], scannedItem = Some bolts, activeScanFlow = Some FLOW_OUT,
     syncQueue = empty_store\<rparr>"

definition out_tx :: "int \<Rightarrow> Transaction" where
  "out_tx q = \<lparr>tx_id = ''TX-1'', tx_type = STOCK_OUT, itemId = ''it-1'', tx_warehouseId = ''w1'',
     targetWarehouseId = None, tx_quantity = q, tx_status = PENDING, staffName = ''John Staff'',
     tx_timestamp = ''t0'', rejectionReason = None\<rparr>"

definition transfer_tx :: "string \<Rightarrow> int \<Rightarrow> Transaction" where
  "transfer_tx k q = \<lparr>tx_id = k, tx_type = TRANSFER, itemId = ''it-1'', tx_warehouseId = ''w1'',
     targetWarehouseId = Some ''w2'', tx_quantity = q, tx_status = PENDING,
     staffName = ''John Staff'', tx_timestamp = ''t0'', rejectionReason = None\<rparr>"

definition st_out :: "int \<Rightarrow> AppState" where
  "st_out q = st0\<lparr>transactions := [out_tx q]\<rparr>"

definition dialog :: "string \<Rightarrow> string \<Rightarrow> RejectDialog" where
  "dialog picked typed =
     \<lparr>rejectingTx = Some (out_tx 3), dlg_rejectionReason = picked, customReason = typed\<rparr>"

definition st_tr :: AppState where
  "st_tr = st0\<lparr>items := [bolts\<lparr>quantity := 40\<rparr>],
               transactions := [transfer_tx ''TR-1'' 10, transfer_tx ''TR-2'' 5]\<rparr>"

definition two_pending :: SyncStore where
  "two_pending = enqueueSyncAction actB (enqueueSyncAction actA empty_store)"

definition two_failed :: SyncStore where
  "two_failed =
     \<lparr>rows = [(1, (stored 1 actA)\<lparr>sa_status := S_FAILED, retries := 1\<rparr>),
              (2, (stored 2 actB)\<lparr>sa_status := S_FAILED, retries := 1\<rparr>)],
      next_key = 3\<rparr>"

definition two_synced :: SyncStore where
  "two_synced =
     \<lparr>rows = [(1, (stored 1 actA)\<lparr>sa_status := S_SYNCED\<rparr>),
              (2, (stored 2 actB)\<lparr>sa_status := S_SYNCED\<rparr>)],
      next_key = 3\<rparr>"

definition hook0 :: HookState where
  "hook0 = \<lparr>isOnline = True, isSyncing = False, pendingCount = 0\<rparr>"


text \<open>
  States for the transfers: one where the target warehouse already holds the product,
  one whose transfer names no target, and one where the source item carries the id the
  next approval will generate.
\<close>

definition st_merge :: AppState where
  "st_merge = st0\<lparr>items := [bolts\<lparr>quantity := 30\<rparr>,
                           bolts\<lparr>item_id := ''it-2'', item_warehouseId := ''w2'', quantity := 10\<rparr>],
                  transactions := [transfer_tx ''TR-2'' 5]\<rparr>"

definition st_untargeted :: AppState where
  "st_untargeted = st0\<lparr>transactions := [(transfer_tx ''TR-9'' 4)\<lparr>targetWarehouseId := None\<rparr>]\<rparr>"

definition clash_tx :: "string \<Rightarrow> int \<Rightarrow> Transaction" where
  "clash_tx k q = (transfer_tx k q)\<lparr>itemId := ''it-1723-42''\<rparr>"

definition st_clash :: AppState where
  "st_clash = st0\<lparr>items := [bolts\<lparr>item_id := ''it-1723-42'', quantity := 40\<rparr>],
                  transactions := [clash_tx ''TR-1'' 10, clash_tx ''TR-2'' 5]\<rparr>"

section \<open>Facts about the sync queue\<close>

lemma upsert_fresh:
  "\<forall>j \<in> fst ` set rs. j < k \<Longrightarrow> upsert k v rs = rs @ [(k, v)]"
  by (induction rs) auto

lemma store_ok_keys_below:
  "store_ok s \<Longrightarrow> \<forall>j \<in> fst ` set (rows s). j < next_key s"
  by (auto simp: store_ok_def list_all_iff)

lemma enqueue_rows:
  assumes "store_ok s"
  shows "enqueueSyncAction a s =
           \<lparr>rows = rows s @ [(next_key s, stored (next_key s) a)], next_key = next_key s + 1\<rparr>"
  using upsert_fresh [OF store_ok_keys_below [OF assms]]
  by (simp add: enqueueSyncAction_def dbPut_def stored_def)

lemma enqueue_store_ok:
  assumes "store_ok s"
  shows "store_ok (enqueueSyncAction a s)"
  using assms unfolding enqueue_rows [OF assms]
  by (auto simp: store_ok_def list_all_iff stored_def sorted_wrt_append)



lemma upsert_existing:
  "sorted_wrt (<) (map fst rs) \<Longrightarrow> k \<in> fst ` set rs \<Longrightarrow>
   upsert k v rs = map (\<lambda>(j, w). if j = k then (j, v) else (j, w)) rs"
proof (induction rs)
  case Nil
  then show ?case by simp
next
  case (Cons r rs)
  obtain j w where r: "r = (j, w)" by (cases r)
  show ?case
  proof (cases "k = j")
    case True
    have "\<forall>x \<in> set rs. fst x \<noteq> k" using Cons.prems(1) True r by auto
    then have "map (\<lambda>(j, w). if j = k then (j, v) else (j, w)) rs = rs"
      by (induction rs) auto
    then show ?thesis using True r by simp
  next
    case False
    then have "k \<in> fst ` set rs" using Cons.prems(2) r by auto
    moreover have "\<forall>x \<in> set rs. j < fst x" using Cons.prems(1) r by auto
    ultimately have "j < k" by auto
    then show ?thesis using Cons r False by auto
  qed
qed

lemma store_ok_dbGet:
  assumes "store_ok s" "dbGet s k = Some a"
  shows "(k, a) \<in> set (rows s)" "sa_id a = Some k" "k < next_key s"
  using assms map_of_SomeD [of "rows s" k a]
  by (auto simp: store_ok_def dbGet_def list_all_iff)

lemma dbPut_existing:
  assumes "store_ok s" "dbGet s k = Some a" "sa_id v = Some k"
  shows "dbPut v s = s\<lparr>rows := map (\<lambda>(j, w). if j = k then (j, v) else (j, w)) (rows s)\<rparr>"
proof -
  have "k \<in> fst ` set (rows s)" using store_ok_dbGet(1) [OF assms(1,2)] by force
  moreover have "sorted_wrt (<) (map fst (rows s))" using assms(1) by (simp add: store_ok_def)
  ultimately have "upsert k v (rows s) = map (\<lambda>(j, w). if j = k then (j, v) else (j, w)) (rows s)"
    by (rule upsert_existing [rotated])
  moreover have "k < next_key s" using store_ok_dbGet(3) [OF assms(1,2)] .
  ultimately show ?thesis using assms(3) by (simp add: dbPut_def)
qed

lemma map_rows_same:
  "sorted_wrt (<) (map fst rs) \<Longrightarrow> map_of rs (k::nat) = Some a \<Longrightarrow>
   map (\<lambda>(j, w). if j = k then (j, a) else (j, w)) rs = rs"
proof (induction rs)
  case Nil
  then show ?case by simp
next
  case (Cons r rs)
  obtain j w where r: "r = (j, w)" by (cases r)
  show ?case
  proof (cases "j = k")
    case True
    have "\<forall>x \<in> set rs. k < fst x" using Cons.prems(1) True r by simp
    then have "\<forall>x \<in> set rs. fst x \<noteq> k" by fastforce
    then have "map (\<lambda>(j, w). if j = k then (j, a) else (j, w)) rs = rs"
      by (induction rs) auto
    then show ?thesis using True r Cons.prems(2) by simp
  next
    case False
    then show ?thesis using Cons r by simp
  qed
qed

lemma store_ok_row:
  "store_ok s \<Longrightarrow> (j, w) \<in> set (rows s) \<Longrightarrow> sa_id w = Some j \<and> j < next_key s"
  by (auto simp: store_ok_def list_all_iff)


lemma markSynced_absent: "dbGet s k = None \<Longrightarrow> markSyncActionSynced k s = s"
  by (simp add: markSyncActionSynced_def)

lemma markFailed_absent: "dbGet s k = None \<Longrightarrow> markSyncActionFailed k s = s"
  by (simp add: markSyncActionFailed_def)

lemma put_rows_all:
  assumes "store_ok s" "dbGet s k = Some a" "sa_id v = Some k"
  shows "dbGetAll (dbPut v s) = map (\<lambda>b. if sa_id b = Some k then v else b) (dbGetAll s)"
proof -
  have key: "\<forall>(j, w) \<in> set (rows s). sa_id w = Some j"
    using assms(1) by (auto simp: store_ok_def list_all_iff)
  have "map snd (map (\<lambda>(j, w). if j = k then (j, v) else (j, w)) rs) =
        map (\<lambda>b. if sa_id b = Some k then v else b) (map snd rs)"
    if "\<forall>(j, w) \<in> set rs. sa_id w = Some j" for rs
    using that by (induction rs) auto
  then show ?thesis
    using key by (simp add: dbPut_existing [OF assms] dbGetAll_def)
qed

lemma put_store_ok:
  assumes "store_ok s" "dbGet s k = Some a" "sa_id v = Some k"
  shows "store_ok (dbPut v s)"
proof -
  let ?f = "\<lambda>(j, w). if j = k then (j, v) else (j, w)"
  have fst: "map fst (map ?f rs) = map fst rs" for rs
    by (induction rs) auto
  have "sa_id w = Some j \<and> j < next_key s" if "(j, w) \<in> set (map ?f (rows s))" for j w
    using that store_ok_row [OF assms(1)] assms(3) by (auto split: if_splits)
  then have "list_all (\<lambda>(j, w). j < next_key s \<and> sa_id w = Some j) (map ?f (rows s))"
    unfolding list_all_iff by blast
  moreover have "sorted_wrt (<) (map fst (map ?f (rows s)))"
    using assms(1) unfolding fst by (simp add: store_ok_def)
  ultimately show ?thesis
    unfolding dbPut_existing [OF assms] by (simp add: store_ok_def)
qed

lemma no_row_no_id:
  assumes "store_ok s" "dbGet s k = None"
  shows "\<forall>b \<in> set (dbGetAll s). sa_id b \<noteq> Some k"
proof -
  have "k \<notin> fst ` set (rows s)" using assms(2) by (simp add: dbGet_def map_of_eq_None_iff)
  moreover have "\<forall>(j, w) \<in> set (rows s). sa_id w = Some j"
    using assms(1) by (auto simp: store_ok_def list_all_iff)
  ultimately show ?thesis by (force simp: dbGetAll_def)
qed

lemma row_same_id:
  assumes "store_ok s" "dbGet s k = Some a"
  shows "\<forall>b \<in> set (dbGetAll s). sa_id b = Some k \<longrightarrow> b = a"
proof -
  have d: "distinct (map fst (rows s))"
    using assms(1) strict_sorted_iff [of "map fst (rows s)"] by (simp add: store_ok_def)
  have "\<forall>(j, w) \<in> set (rows s). sa_id w = Some j"
    using assms(1) by (auto simp: store_ok_def list_all_iff)
  then have "\<forall>(j, w) \<in> set (rows s). sa_id w = Some k \<longrightarrow> map_of (rows s) k = Some w"
    using d by (auto dest: map_of_is_SomeI)
  then show ?thesis using assms(2) by (force simp: dbGetAll_def dbGet_def)
qed

lemma markSynced_all:
  assumes "store_ok s"
  shows "dbGetAll (markSyncActionSynced k s) =
         map (\<lambda>b. if sa_id b = Some k then b\<lparr>sa_status := S_SYNCED\<rparr> else b) (dbGetAll s)"
proof (cases "dbGet s k")
  case None
  then show ?thesis
    using no_row_no_id [OF assms None] by (simp add: markSyncActionSynced_def map_idI)
next
  case (Some a)
  let ?v = "a\<lparr>sa_status := S_SYNCED\<rparr>"
  have id: "sa_id ?v = Some k"
    using store_ok_dbGet(2) [OF assms Some] by simp
  have "dbGetAll (markSyncActionSynced k s) =
        map (\<lambda>b. if sa_id b = Some k then ?v else b) (dbGetAll s)"
    using put_rows_all [OF assms Some id] by (simp only: markSyncActionSynced_def Some option.case)
  also have "\<dots> = map (\<lambda>b. if sa_id b = Some k then b\<lparr>sa_status := S_SYNCED\<rparr> else b) (dbGetAll s)"
    using row_same_id [OF assms Some] by (intro map_cong) auto
  finally show ?thesis .
qed

lemma markFailed_all:
  assumes "store_ok s"
  shows "dbGetAll (markSyncActionFailed k s) =
         map (\<lambda>b. if sa_id b = Some k then b\<lparr>sa_status := S_FAILED, retries := retries b + 1\<rparr> else b)
           (dbGetAll s)"
proof (cases "dbGet s k")
  case None
  then show ?thesis
    using no_row_no_id [OF assms None] by (simp add: markSyncActionFailed_def map_idI)
next
  case (Some a)
  let ?v = "a\<lparr>sa_status := S_FAILED, retries := retries a + 1\<rparr>"
  have id: "sa_id ?v = Some k"
    using store_ok_dbGet(2) [OF assms Some] by simp
  have "dbGetAll (markSyncActionFailed k s) =
        map (\<lambda>b. if sa_id b = Some k then ?v else b) (dbGetAll s)"
    using put_rows_all [OF assms Some id] by (simp only: markSyncActionFailed_def Some option.case)
  also have "\<dots> = map (\<lambda>b. if sa_id b = Some k then b\<lparr>sa_status := S_FAILED, retries := retries b + 1\<rparr> else b)
           (dbGetAll s)"
    using row_same_id [OF assms Some] by (intro map_cong) auto
  finally show ?thesis .
qed

lemma markSynced_store_ok: "store_ok s \<Longrightarrow> store_ok (markSyncActionSynced k s)"
  using store_ok_dbGet(2) [of s k]
  by (auto simp: markSyncActionSynced_def intro!: put_store_ok split: option.splits)

lemma markFailed_store_ok: "store_ok s \<Longrightarrow> store_ok (markSyncActionFailed k s)"
  using store_ok_dbGet(2) [of s k]
  by (auto simp: markSyncActionFailed_def intro!: put_store_ok split: option.splits)

lemma markSynced_on_synced:
  assumes "store_ok s" "dbGet s k = Some a" "sa_status a = S_SYNCED"
  shows "markSyncActionSynced k s = s"
proof -
  have a: "a\<lparr>sa_status := S_SYNCED\<rparr> = a" using assms(3) by simp
  have "sorted_wrt (<) (map fst (rows s))" using assms(1) by (simp add: store_ok_def)
  then have "map (\<lambda>(j, w). if j = k then (j, a) else (j, w)) (rows s) = rows s"
    using assms(2) by (intro map_rows_same) (simp_all add: dbGet_def)
  then show ?thesis
    using dbPut_existing [OF assms(1,2) store_ok_dbGet(2) [OF assms(1,2)]]
    by (simp add: markSyncActionSynced_def assms(2) a)
qed

lemma dbGet_after_put:
  assumes "store_ok s" "dbGet s k = Some a" "sa_id v = Some k"
  shows "dbGet (dbPut v s) k = Some v"
proof -
  have "map_of (map (\<lambda>(j, w). if j = k then (j, v) else (j, w)) rs) k = Some v"
    if "k \<in> fst ` set rs" for rs :: "(nat \<times> SyncAction) list"
    using that by (induction rs) auto
  moreover have "k \<in> fst ` set (rows s)" using store_ok_dbGet(1) [OF assms(1,2)] by force
  ultimately show ?thesis
    unfolding dbPut_existing [OF assms] by (simp add: dbGet_def)
qed

text \<open>
  Claim C9, as amended. Marking an id that is not in the queue changes nothing and is
  not an error. \<open>markSyncActionSynced\<close> on an action that is already SYNCED leaves
  the store as it is, and marking twice is the same as marking once. Neither function
  looks at the status it finds: whatever it was, \<open>markSyncActionSynced\<close> stores
  SYNCED, and \<open>markSyncActionFailed\<close> stores FAILED and one more retry.
\<close>

theorem mark_status_overwrite:
  assumes "store_ok s"
  shows "(dbGet s k = None \<longrightarrow> markSyncActionSynced k s = s \<and> markSyncActionFailed k s = s) \<and>
         (\<forall>a. dbGet s k = Some a \<longrightarrow>
            (sa_status a = S_SYNCED \<longrightarrow> markSyncActionSynced k s = s) \<and>
            dbGet (markSyncActionSynced k s) k = Some (a\<lparr>sa_status := S_SYNCED\<rparr>) \<and>
            dbGet (markSyncActionFailed k s) k =
              Some (a\<lparr>sa_status := S_FAILED, retries := retries a + 1\<rparr>)) \<and>
         markSyncActionSynced k (markSyncActionSynced k s) = markSyncActionSynced k s"
proof (cases "dbGet s k")
  case None
  then show ?thesis by (simp add: markSynced_absent markFailed_absent)
next
  case (Some a)
  let ?v = "a\<lparr>sa_status := S_SYNCED\<rparr>"
  let ?w = "a\<lparr>sa_status := S_FAILED, retries := retries a + 1\<rparr>"
  have idv: "sa_id ?v = Some k" and idw: "sa_id ?w = Some k"
    using store_ok_dbGet(2) [OF assms Some] by simp_all
  have g1: "dbGet (markSyncActionSynced k s) k = Some ?v"
    using dbGet_after_put [OF assms Some idv] by (simp only: markSyncActionSynced_def Some option.case)
  have g2: "dbGet (markSyncActionFailed k s) k = Some ?w"
    using dbGet_after_put [OF assms Some idw] by (simp only: markSyncActionFailed_def Some option.case)
  have g3: "sa_status a = S_SYNCED \<Longrightarrow> markSyncActionSynced k s = s"
    using markSynced_on_synced [OF assms Some] .
  have "markSyncActionSynced k (markSyncActionSynced k s) = markSyncActionSynced k s"
    by (rule markSynced_on_synced [OF markSynced_store_ok [OF assms] g1]) simp
  then show ?thesis using Some g1 g2 g3 by simp
qed

text \<open>
  The claim as stated fails: a FAILED action with one retry, marked failed again, has
  two retries; marked synced, it is SYNCED; and a SYNCED action marked failed is FAILED.
\<close>

theorem mark_terminal_counterexample:
  "dbGet \<lparr>rows = [(1, failed_once)], next_key = 2\<rparr> 1 = Some failed_once \<and>
   sa_status failed_once = S_FAILED \<and>
   markSyncActionFailed 1 \<lparr>rows = [(1, failed_once)], next_key = 2\<rparr> =
     \<lparr>rows = [(1, failed_once\<lparr>retries := 2\<rparr>)], next_key = 2\<rparr> \<and>
   markSyncActionSynced 1 \<lparr>rows = [(1, failed_once)], next_key = 2\<rparr> =
     \<lparr>rows = [(1, failed_once\<lparr>sa_status := S_SYNCED\<rparr>)], next_key = 2\<rparr> \<and>
   markSyncActionFailed 1 \<lparr>rows = [(1, synced_row)], next_key = 2\<rparr> =
     \<lparr>rows = [(1, synced_row\<lparr>sa_status := S_FAILED, retries := 1\<rparr>)], next_key = 2\<rparr>"
  by (simp add: markSyncActionFailed_def markSyncActionSynced_def dbGet_def dbPut_def
      failed_once_def synced_row_def)

theorem mark_status_overwrite_witness:
  "store_ok \<lparr>rows = [(1, synced_row)], next_key = 2\<rparr> \<and>
   dbGet \<lparr>rows = [(1, synced_row)], next_key = 2\<rparr> 1 = Some synced_row \<and>
   sa_status synced_row = S_SYNCED \<and>
   markSyncActionSynced 1 \<lparr>rows = [(1, synced_row)], next_key = 2\<rparr> =
     \<lparr>rows = [(1, synced_row)], next_key = 2\<rparr> \<and>
   dbGet \<lparr>rows = [(1, synced_row)], next_key = 2\<rparr> 7 = None \<and>
   markSyncActionFailed 7 \<lparr>rows = [(1, synced_row)], next_key = 2\<rparr> =
     \<lparr>rows = [(1, synced_row)], next_key = 2\<rparr>"
proof -
  let ?s = "\<lparr>rows = [(1, synced_row)], next_key = 2\<rparr>"
  have ok: "store_ok ?s" by (simp add: store_ok_def synced_row_def)
  have g: "dbGet ?s 1 = Some synced_row" "dbGet ?s 7 = None" "sa_status synced_row = S_SYNCED"
    by (simp_all add: dbGet_def synced_row_def)
  show ?thesis
    using ok g mark_status_overwrite [OF ok, of 1] mark_status_overwrite [OF ok, of 7]
    by simp
qed

lemma enqueue_all:
  "store_ok s \<Longrightarrow> dbGetAll (enqueueSyncAction a s) = dbGetAll s @ [stored (next_key s) a]"
  by (simp add: enqueue_rows dbGetAll_def)

lemma awaited_mark_works:
  "awaited_mark mark k s [] = (True, (case dbGet s k of None \<Rightarrow> s | Some a \<Rightarrow> mark k s), [])"
  by (simp add: awaited_mark_def request_ok_def split: option.splits)

lemma markSynced_absent_case:
  "(case dbGet s k of None \<Rightarrow> s | Some a \<Rightarrow> markSyncActionSynced k s) = markSyncActionSynced k s"
  by (simp add: markSyncActionSynced_def split: option.splits)

lemma markFailed_absent_case:
  "(case dbGet s k of None \<Rightarrow> s | Some a \<Rightarrow> markSyncActionFailed k s) = markSyncActionFailed k s"
  by (simp add: markSyncActionFailed_def split: option.splits)

lemma mark_loop_works:
  assumes "\<And>s k. (case dbGet s k of None \<Rightarrow> s | Some a \<Rightarrow> mark k s) = mark k s"
  shows "mark_loop mark as s [] = (True, mark_each mark as s, [])"
proof (induction as arbitrary: s)
  case Nil
  then show ?case by simp
next
  case (Cons a as)
  show ?case
  proof (cases "sa_id a")
    case None
    then show ?thesis using Cons by simp
  next
    case (Some k)
    have "awaited_mark mark k s [] = (True, mark k s, [])"
      unfolding awaited_mark_works assms ..
    then show ?thesis using Some Cons by simp
  qed
qed





lemma stored_ids_distinct:
  assumes "store_ok s"
  shows "distinct (map sa_id (dbGetAll s))"
proof -
  have "map sa_id (dbGetAll s) = map (\<lambda>r. Some (fst r)) (rows s)"
    using store_ok_row [OF assms] by (auto simp: dbGetAll_def)
  moreover have "distinct (map fst (rows s))"
    using assms strict_sorted_iff [of "map fst (rows s)"] by (simp add: store_ok_def)
  ultimately show ?thesis by (simp add: distinct_map inj_on_def)
qed

lemma pending_distinct:
  "store_ok s \<Longrightarrow> distinct (map sa_id (getPendingSyncActions s))"
  using stored_ids_distinct [of s] by (simp add: getPendingSyncActions_def distinct_map_filter)



section \<open>Facts about the handlers\<close>

lemma map_effect_noop:
  "(\<And>x s. x \<in> set xs \<Longrightarrow> f x s = (x, s)) \<Longrightarrow> map_effect f xs s = (xs, s)"
  by (induction xs arbitrary: s) simp_all

lemma map_effect_append:
  "map_effect f (xs @ ys) s =
     (case map_effect f xs s of (a, s1) \<Rightarrow>
        (case map_effect f ys s1 of (b, s2) \<Rightarrow> (a @ b, s2)))"
  by (induction xs arbitrary: s) (simp_all split: prod.splits)

lemma map_effect_one:
  assumes "\<And>y s. y \<in> set pre \<Longrightarrow> f y s = (y, s)"
      and "\<And>y s. y \<in> set post \<Longrightarrow> f y s = (y, s)"
  shows "map_effect f (pre @ x # post) s = (pre @ fst (f x s) # post, snd (f x s))"
  by (simp add: map_effect_append map_effect_noop [of pre f] map_effect_noop [of post f] assms
      split: prod.splits)

lemma distinct_split:
  assumes "distinct (map key xs)" "x \<in> set xs"
  shows "\<exists>pre post. xs = pre @ x # post \<and>
           (\<forall>y \<in> set pre. key y \<noteq> key x) \<and> (\<forall>y \<in> set post. key y \<noteq> key x)"
proof -
  obtain pre post where xs: "xs = pre @ x # post"
    using assms(2) by (auto dest: split_list)
  have "\<forall>y \<in> set pre. key y \<noteq> key x" "\<forall>y \<in> set post. key y \<noteq> key x"
    using assms(1) unfolding xs by (auto simp: image_iff)
  then show ?thesis using xs by blast
qed

lemma map_at_key:
  assumes "\<forall>y \<in> set pre. key y \<noteq> k" "\<forall>y \<in> set post. key y \<noteq> k" "key x = k"
  shows "map (\<lambda>t. if key t = k then g t else t) (pre @ x # post) = pre @ g x # post"
  using assms by (simp add: map_idI)

lemma approve_absent:
  assumes "txId \<notin> tx_id ` set (transactions st)"
  shows "handleApproveTransaction env txId st = st"
proof -
  have "map_effect (approve_tx env (items st) (warehouses st) (categories st) txId)
          (transactions st) st = (transactions st, st)"
    using assms by (intro map_effect_noop) (auto simp: approve_tx_def)
  then show ?thesis by (simp add: handleApproveTransaction_def)
qed

lemma reject_absent:
  assumes "txId \<notin> tx_id ` set (transactions st)"
  shows "handleRejectTransaction env txId reason st = st"
proof -
  have "map_effect (reject_tx env (items st) txId reason) (transactions st) st = (transactions st, st)"
    using assms by (intro map_effect_noop) (auto simp: reject_tx_def)
  then show ?thesis by (simp add: handleRejectTransaction_def)
qed

lemma approve_found:
  assumes d: "distinct (map tx_id (transactions st))"
      and tx: "tx \<in> set (transactions st)" "tx_id tx = txId"
      and src: "find (\<lambda>i. item_id i = itemId tx) (items st) = Some sourceItem"
  shows "handleApproveTransaction env txId st =
           st\<lparr>items := approve_items env (warehouses st) (categories st) sourceItem tx (items st),
              notifications := addNotification env ''Transaction Approved''
                 (type_name (tx_type tx) @ '' request for '' @ item_name sourceItem @ '' completed.'')
                 (notifications st),
              syncQueue := enqueue_unawaited env
                 \<lparr>in_type = ''APPROVE'', in_payload = ApprovePayload txId,
                  in_timestamp = iso env\<rparr> (syncQueue st),
              transactions := map (\<lambda>t. if tx_id t = txId then t\<lparr>tx_status := APPROVED\<rparr> else t)
                 (transactions st)\<rparr>"
proof -
  let ?f = "approve_tx env (items st) (warehouses st) (categories st) txId"
  obtain pre post where xs: "transactions st = pre @ tx # post"
    and pre: "\<forall>y \<in> set pre. tx_id y \<noteq> txId" and post: "\<forall>y \<in> set post. tx_id y \<noteq> txId"
    using distinct_split [OF d tx(1)] tx(2) by blast
  have "map_effect ?f (pre @ tx # post) st = (pre @ fst (?f tx st) # post, snd (?f tx st))"
    using pre post by (intro map_effect_one) (auto simp: approve_tx_def)
  moreover have "map (\<lambda>t. if tx_id t = txId then t\<lparr>tx_status := APPROVED\<rparr> else t) (pre @ tx # post)
                 = pre @ tx\<lparr>tx_status := APPROVED\<rparr> # post"
    using pre post tx(2) by (intro map_at_key) auto
  ultimately show ?thesis
    using src tx(2) by (simp add: handleApproveTransaction_def xs approve_tx_def)
qed

lemma reject_found:
  assumes d: "distinct (map tx_id (transactions st))"
      and tx: "tx \<in> set (transactions st)" "tx_id tx = txId"
  shows "handleRejectTransaction env txId reason st =
           st\<lparr>notifications := addNotification env ''Transaction Rejected''
                  (type_name (tx_type tx) @ '' request for '' @
                     or_default (map_option item_name (find (\<lambda>i. item_id i = itemId tx) (items st))) ''Item'' @
                     '' was declined.'')
                  (notifications st),
              syncQueue := enqueue_unawaited env
                  \<lparr>in_type = ''REJECT'', in_payload = RejectPayload txId reason,
                   in_timestamp = iso env\<rparr> (syncQueue st),
              transactions := map (\<lambda>t. if tx_id t = txId
                                        then t\<lparr>tx_status := REJECTED, rejectionReason := Some reason\<rparr>
                                        else t) (transactions st)\<rparr>"
proof -
  let ?f = "reject_tx env (items st) txId reason"
  obtain pre post where xs: "transactions st = pre @ tx # post"
    and pre: "\<forall>y \<in> set pre. tx_id y \<noteq> txId" and post: "\<forall>y \<in> set post. tx_id y \<noteq> txId"
    using distinct_split [OF d tx(1)] tx(2) by blast
  have "map_effect ?f (pre @ tx # post) st = (pre @ fst (?f tx st) # post, snd (?f tx st))"
    using pre post by (intro map_effect_one) (auto simp: reject_tx_def)
  moreover have "map (\<lambda>t. if tx_id t = txId
                          then t\<lparr>tx_status := REJECTED, rejectionReason := Some reason\<rparr> else t)
                   (pre @ tx # post)
                 = pre @ tx\<lparr>tx_status := REJECTED, rejectionReason := Some reason\<rparr> # post"
    using pre post tx(2) by (intro map_at_key) auto
  ultimately show ?thesis
    using tx(2) by (simp add: handleRejectTransaction_def xs reject_tx_def Let_def)
qed

text \<open>
  Claim C3, as amended. A request handler always appends one new PENDING transaction
  and leaves the items alone. The matching queue entry (same type, the transaction as
  payload, PENDING, no retries) is there when the queue write succeeds; when it fails
  the queue is as before. The two steps are separate calls, with no rollback.
\<close>

theorem request_creates_tx_then_enqueues:
  assumes "store_ok (syncQueue st)"
  shows "request_outcome env STOCK_IN item qty st (handleStockInRequest env item qty st) \<and>
         request_outcome env STOCK_OUT item qty st (handleStockOutRequest env item qty st) \<and>
         request_outcome env TRANSFER item qty st (handleTransferRequest env item target qty st)"
  using assms
  by (simp add: request_outcome_def handleStockInRequest_def handleStockOutRequest_def
      handleTransferRequest_def enqueue_unawaited_def enqueue_all stored_def Let_def)

text \<open>
  The claim as stated fails: with the queue write failing, the stock-out request leaves
  its transaction in the collection and nothing in the queue.
\<close>

theorem request_not_atomic_counterexample:
  "transactions (handleStockOutRequest env_down bolts 5 st0) =
     [\<lparr>tx_id = ''TX-1723'', tx_type = STOCK_OUT, itemId = ''it-1'', tx_warehouseId = ''w1'',
       targetWarehouseId = None, tx_quantity = 5, tx_status = PENDING, staffName = ''John Staff'',
       tx_timestamp = ''t1'', rejectionReason = None\<rparr>] \<and>
   dbGetAll (syncQueue (handleStockOutRequest env_down bolts 5 st0)) = []"
  by (simp add: handleStockOutRequest_def env_down_def bolts_def st0_def enqueue_unawaited_def
      empty_store_def dbGetAll_def show_nat.simps Let_def)

theorem request_creates_tx_then_enqueues_witness:
  "store_ok (syncQueue st0) \<and>
   transactions (handleStockOutRequest env1 bolts 5 st0) =
     [\<lparr>tx_id = ''TX-1723'', tx_type = STOCK_OUT, itemId = ''it-1'', tx_warehouseId = ''w1'',
       targetWarehouseId = None, tx_quantity = 5, tx_status = PENDING, staffName = ''John Staff'',
       tx_timestamp = ''t1'', rejectionReason = None\<rparr>] \<and>
   dbGetAll (syncQueue (handleStockOutRequest env1 bolts 5 st0)) =
     [\<lparr>sa_id = Some 1, sa_type = ''STOCK_OUT'',
       payload = TxPayload \<lparr>tx_id = ''TX-1723'', tx_type = STOCK_OUT, itemId = ''it-1'',
         tx_warehouseId = ''w1'', targetWarehouseId = None, tx_quantity = 5, tx_status = PENDING,
         staffName = ''John Staff'', tx_timestamp = ''t1'', rejectionReason = None\<rparr>,
       sa_status = S_PENDING, sa_timestamp = ''t1'', retries = 0\<rparr>]"
proof -
  have ok: "store_ok (syncQueue st0)" by (simp add: st0_def empty_store_def store_ok_def)
  have tx: "transactions (handleStockOutRequest env1 bolts 5 st0) =
     [\<lparr>tx_id = ''TX-1723'', tx_type = STOCK_OUT, itemId = ''it-1'', tx_warehouseId = ''w1'',
       targetWarehouseId = None, tx_quantity = 5, tx_status = PENDING, staffName = ''John Staff'',
       tx_timestamp = ''t1'', rejectionReason = None\<rparr>]"
    by (simp add: handleStockOutRequest_def env1_def bolts_def st0_def show_nat.simps Let_def)
  have e: "db_up env1" "transactions st0 = []" "dbGetAll (syncQueue st0) = []"
    "next_key (syncQueue st0) = 1"
    by (simp_all add: env1_def st0_def empty_store_def dbGetAll_def)
  show ?thesis
    using ok tx request_creates_tx_then_enqueues [OF ok, of env1 bolts 5 "''w2''"] e
    by (simp add: request_outcome_def)
qed

lemma approve_no_source:
  assumes "\<forall>t \<in> set (transactions st). tx_id t = txId \<longrightarrow>
             find (\<lambda>i. item_id i = itemId t) (items st) = None"
  shows "handleApproveTransaction env txId st = st"
proof -
  have "map_effect (approve_tx env (items st) (warehouses st) (categories st) txId)
          (transactions st) st = (transactions st, st)"
    using assms by (intro map_effect_noop) (auto simp: approve_tx_def)
  then show ?thesis by (simp add: handleApproveTransaction_def)
qed

lemma distinct_same_key:
  assumes "distinct (map key xs)" "x \<in> set xs" "y \<in> set xs" "key x = key y"
  shows "x = y"
  using assms by (meson distinct_map inj_onD)

text \<open>
  Claim C2, as amended. Approving or rejecting an id that no transaction carries changes
  nothing. For a transaction that is there, neither handler looks at its status:
  \<open>handleRejectTransaction\<close> marks it REJECTED with the reason;
  \<open>handleApproveTransaction\<close> does nothing when the source item is missing, and
  otherwise marks it APPROVED and applies the item update to the current items, again
  on every call.
\<close>

theorem approve_reject_ignore_status:
  "(txId \<notin> tx_id ` set (transactions st) \<longrightarrow>
      handleApproveTransaction env txId st = st \<and>
      handleRejectTransaction env txId reason st = st) \<and>
   (distinct (map tx_id (transactions st)) \<and> tx \<in> set (transactions st) \<and> tx_id tx = txId \<longrightarrow>
      transactions (handleRejectTransaction env txId reason st) =
        map (\<lambda>t. if tx_id t = txId
                 then t\<lparr>tx_status := REJECTED, rejectionReason := Some reason\<rparr> else t)
          (transactions st) \<and>
      (find (\<lambda>i. item_id i = itemId tx) (items st) = None \<longrightarrow>
         handleApproveTransaction env txId st = st) \<and>
      (\<forall>sourceItem. find (\<lambda>i. item_id i = itemId tx) (items st) = Some sourceItem \<longrightarrow>
         transactions (handleApproveTransaction env txId st) =
           map (\<lambda>t. if tx_id t = txId then t\<lparr>tx_status := APPROVED\<rparr> else t) (transactions st) \<and>
         items (handleApproveTransaction env txId st) =
           approve_items env (warehouses st) (categories st) sourceItem tx (items st)))"
proof (intro conjI impI allI)
  assume "txId \<notin> tx_id ` set (transactions st)"
  then show "handleApproveTransaction env txId st = st"
    and "handleRejectTransaction env txId reason st = st"
    by (rule approve_absent, rule reject_absent)
next
  assume a: "distinct (map tx_id (transactions st)) \<and> tx \<in> set (transactions st) \<and> tx_id tx = txId"
  then show "transactions (handleRejectTransaction env txId reason st) =
        map (\<lambda>t. if tx_id t = txId
                 then t\<lparr>tx_status := REJECTED, rejectionReason := Some reason\<rparr> else t)
          (transactions st)"
    by (simp add: reject_found [of st tx txId])
  {
    assume n: "find (\<lambda>i. item_id i = itemId tx) (items st) = None"
    have "t = tx" if "t \<in> set (transactions st)" "tx_id t = txId" for t
      using a that distinct_same_key [of tx_id "transactions st" t tx] by simp
    then show "handleApproveTransaction env txId st = st"
      using n by (intro approve_no_source) auto
  }
  {
    fix sourceItem
    assume s: "find (\<lambda>i. item_id i = itemId tx) (items st) = Some sourceItem"
    show "transactions (handleApproveTransaction env txId st) =
           map (\<lambda>t. if tx_id t = txId then t\<lparr>tx_status := APPROVED\<rparr> else t) (transactions st)"
      and "items (handleApproveTransaction env txId st) =
           approve_items env (warehouses st) (categories st) sourceItem tx (items st)"
      using a s by (simp_all add: approve_found [of st tx txId sourceItem])
  }
qed

lemma approve_once_eval:
  "handleApproveTransaction env1 ''TX-1'' (st_out q) =
     st0\<lparr>items := [bolts\<lparr>quantity := 10 - q, lastUpdated := ''t1''\<rparr>],
         notifications := [\<lparr>notif_id = ''k3x9'', title = ''Transaction Approved'',
            message = ''STOCK_OUT request for Bolt M8 completed.'', read = False,
            notif_timestamp = ''t1''\<rparr>],
         syncQueue := \<lparr>rows = [(1, \<lparr>sa_id = Some 1, sa_type = ''APPROVE'',
            payload = ApprovePayload ''TX-1'', sa_status = S_PENDING, sa_timestamp = ''t1'',
            retries = 0\<rparr>)], next_key = 2\<rparr>,
         transactions := [(out_tx q)\<lparr>tx_status := APPROVED\<rparr>]\<rparr>"
  by (simp add: handleApproveTransaction_def approve_tx_def approve_items_def st_out_def st0_def
      out_tx_def bolts_def env1_def addNotification_def enqueue_unawaited_def
      enqueueSyncAction_def dbPut_def empty_store_def Let_def)

text \<open>
  The claim as stated fails: approving the same stock-out of 3 twice takes the item from
  10 to 7 and then to 4, and rejecting the approved transaction makes it REJECTED.
\<close>

theorem approve_twice_counterexample:
  "map tx_status (transactions (st_out 3)) = [PENDING] \<and>
   map quantity (items (handleApproveTransaction env1 ''TX-1'' (st_out 3))) = [7] \<and>
   map tx_status (transactions (handleApproveTransaction env1 ''TX-1'' (st_out 3))) = [APPROVED] \<and>
   map quantity (items (handleApproveTransaction env2 ''TX-1''
      (handleApproveTransaction env1 ''TX-1'' (st_out 3)))) = [4] \<and>
   map tx_status (transactions (handleRejectTransaction env2 ''TX-1'' ''late''
      (handleApproveTransaction env1 ''TX-1'' (st_out 3)))) = [REJECTED]"
  unfolding approve_once_eval
  by (simp add: handleApproveTransaction_def handleRejectTransaction_def approve_tx_def
      reject_tx_def approve_items_def st_out_def st0_def out_tx_def bolts_def Let_def)

text \<open>
  Claim C1 as stated fails: a stock-out of 15 against 10 units in stock is approved and
  leaves the item at minus 5.
\<close>

theorem approve_negative_counterexample:
  "tx_type (out_tx 15) = STOCK_OUT \<and> tx_quantity (out_tx 15) = 15 \<and>
   map quantity (items (st_out 15)) = [10] \<and>
   map quantity (items (handleApproveTransaction env1 ''TX-1'' (st_out 15))) = [- 5] \<and>
   map tx_status (transactions (handleApproveTransaction env1 ''TX-1'' (st_out 15))) = [APPROVED]"
  unfolding approve_once_eval
  by (simp add: st_out_def st0_def out_tx_def bolts_def)

theorem approve_reject_ignore_status_witness:
  "''TX-9'' \<notin> tx_id ` set (transactions (st_out 3)) \<and>
   handleApproveTransaction env1 ''TX-9'' (st_out 3) = st_out 3 \<and>
   handleRejectTransaction env1 ''TX-9'' ''late'' (st_out 3) = st_out 3 \<and>
   distinct (map tx_id (transactions (st_out 3))) \<and>
   out_tx 3 \<in> set (transactions (st_out 3)) \<and>
   find (\<lambda>i. item_id i = itemId (out_tx 3)) (items (st_out 3)) = Some bolts \<and>
   transactions (handleApproveTransaction env1 ''TX-1'' (st_out 3)) =
     [(out_tx 3)\<lparr>tx_status := APPROVED\<rparr>] \<and>
   items (handleApproveTransaction env1 ''TX-1'' (st_out 3)) =
     approve_items env1 [wh1, wh2] [cat1] bolts (out_tx 3) [bolts]"
proof -
  have a: "''TX-9'' \<notin> tx_id ` set (transactions (st_out 3))"
    by (simp add: st_out_def out_tx_def)
  have b: "distinct (map tx_id (transactions (st_out 3)))" "out_tx 3 \<in> set (transactions (st_out 3))"
    "tx_id (out_tx 3) = ''TX-1''"
    "find (\<lambda>i. item_id i = itemId (out_tx 3)) (items (st_out 3)) = Some bolts"
    by (simp_all add: st_out_def st0_def out_tx_def bolts_def)
  have c: "transactions (st_out 3) = [out_tx 3]" "items (st_out 3) = [bolts]"
    "warehouses (st_out 3) = [wh1, wh2]" "categories (st_out 3) = [cat1]"
    by (simp_all add: st_out_def st0_def)
  show ?thesis
    using a b
      approve_reject_ignore_status [where txId = "''TX-9''" and st = "st_out 3" and env = env1
        and reason = "''late''" and tx = "out_tx 3"]
      approve_reject_ignore_status [where txId = "''TX-1''" and st = "st_out 3" and env = env1
        and reason = "''late''" and tx = "out_tx 3"]
    by (simp add: c)
qed

lemma find_map_pres:
  "(\<And>x. P (f x) = P x) \<Longrightarrow> find P (map f xs) = map_option f (find P xs)"
  by (induction xs) simp_all

lemma find_app:
  "find P (xs @ ys) = (case find P xs of Some x \<Rightarrow> Some x | None \<Rightarrow> find P ys)"
  by (induction xs) simp_all

lemma approve_items_alt:
  "approve_items env whs cats sourceItem tx currItems =
     (let updated = map (debit env tx) currItems
      in case targetWarehouseId tx of
           None \<Rightarrow> updated
         | Some target \<Rightarrow>
             if tx_type tx = TRANSFER \<and> target \<noteq> [] then
               (case find (\<lambda>i. item_warehouseId i = target \<and>
                               item_categoryId i = item_categoryId sourceItem \<and>
                               item_name i = item_name sourceItem) updated of
                  Some existing \<Rightarrow> map (credit env (item_id existing) (tx_quantity tx)) updated
                | None \<Rightarrow>
                    updated @
                    [sourceItem
                       \<lparr>item_id := ''it-'' @ show_nat (now env) @ ''-'' @ show_nat (random1000 env),
                        item_warehouseId := target,
                        quantity := tx_quantity tx,
                        barcode := or_default (map_option prefix (find (\<lambda>w. wh_id w = target) whs)) ''WH'' @ ''-'' @
                                   or_default (map_option code
                                      (find (\<lambda>c. cat_id c = item_categoryId sourceItem) cats)) ''GEN'' @ ''-'' @
                                   part1 (split_on CHR ''-''
                                      (''it-'' @ show_nat (now env) @ ''-'' @ show_nat (random1000 env))),
                        lastUpdated := iso env\<rparr>])
             else updated)"
proof -
  have "(\<lambda>i. if item_id i = itemId tx
              then i\<lparr>quantity := quantity i - tx_quantity tx, lastUpdated := iso env\<rparr> else i)
        = debit env tx"
    by (rule ext) (simp add: debit_def)
  moreover have "(\<lambda>i. if item_id i = k
              then i\<lparr>quantity := quantity i + tx_quantity tx, lastUpdated := iso env\<rparr> else i)
        = credit env k (tx_quantity tx)" for k
    by (rule ext) (simp add: credit_def)
  ultimately show ?thesis
    by (simp add: approve_items_def Let_def split: option.splits)
qed

lemma debit_fields [simp]:
  "item_id (debit env tx i) = item_id i"
  "item_warehouseId (debit env tx i) = item_warehouseId i"
  "item_categoryId (debit env tx i) = item_categoryId i"
  "item_name (debit env tx i) = item_name i"
  by (simp_all add: debit_def)

lemma credit_fields [simp]:
  "item_id (credit env k q i) = item_id i"
  "item_warehouseId (credit env k q i) = item_warehouseId i"
  "item_categoryId (credit env k q i) = item_categoryId i"
  "item_name (credit env k q i) = item_name i"
  by (simp_all add: credit_def)

lemma find_id_in_set:
  assumes "distinct (map item_id xs)" "x \<in> set xs" "item_id x = k"
  shows "find (\<lambda>i. item_id i = k) xs = Some x"
proof -
  obtain y where y: "find (\<lambda>i. item_id i = k) xs = Some y"
    using assms(2,3) by (cases "find (\<lambda>i. item_id i = k) xs") (auto simp: find_None_iff)
  then have "y \<in> set xs" "item_id y = k"
    by (auto simp: find_Some_iff)
  then have "y = x" using distinct_same_key [OF assms(1) _ assms(2)] assms(3) by simp
  then show ?thesis using y by simp
qed

lemma approve_items_source:
  assumes d: "distinct (map item_id its)"
      and src: "find (\<lambda>i. item_id i = itemId tx) its = Some src"
      and other: "tx_type tx = TRANSFER \<longrightarrow> targetWarehouseId tx \<noteq> Some (item_warehouseId src)"
  shows "find (\<lambda>i. item_id i = itemId tx) (approve_items env whs cats src tx its) =
           Some (src\<lparr>quantity := quantity src - tx_quantity tx, lastUpdated := iso env\<rparr>)"
proof -
  let ?upd = "map (debit env tx) its"
  let ?src' = "src\<lparr>quantity := quantity src - tx_quantity tx, lastUpdated := iso env\<rparr>"
  have sid: "item_id src = itemId tx" using src by (auto simp: find_Some_iff)
  have u: "find (\<lambda>i. item_id i = itemId tx) ?upd = Some ?src'"
    using src sid by (simp add: find_map_pres debit_def)
  have du: "distinct (map item_id ?upd)" using d by (simp add: comp_def)
  have app: "find (\<lambda>i. item_id i = itemId tx) (?upd @ [n]) = Some ?src'" for n
    using u by (simp add: find_app)
  have cr: "find (\<lambda>i. item_id i = itemId tx) (map (credit env (item_id e) q) ?upd) = Some ?src'"
    if e: "find (\<lambda>i. item_warehouseId i = target \<and> P i) ?upd = Some e"
      and t: "target \<noteq> item_warehouseId src" for e target q P
  proof -
    have e1: "e \<in> set ?upd" and e2: "item_warehouseId e = target"
      using e by (auto simp: find_Some_iff)
    have s1: "?src' \<in> set ?upd" using u by (auto simp: find_Some_iff)
    have "item_id e \<noteq> itemId tx"
    proof
      assume "item_id e = itemId tx"
      then have "e = ?src'" using distinct_same_key [OF du e1 s1] sid by simp
      then have "item_warehouseId e = item_warehouseId src" by simp
      then show False using e2 t by simp
    qed
    then have c: "credit env (item_id e) q ?src' = ?src'" using sid by (simp add: credit_def)
    have "find (\<lambda>i. item_id i = itemId tx) (map (credit env (item_id e) q) ?upd) =
          map_option (credit env (item_id e) q) (find (\<lambda>i. item_id i = itemId tx) ?upd)"
      by (rule find_map_pres) simp
    then show ?thesis by (simp only: u option.map c)
  qed
  show ?thesis
    unfolding approve_items_alt Let_def
    using u app cr other by (auto split: option.splits)
qed

text \<open>
  Claim C1, as amended. Approval makes no stock check and has no failure result. For a
  STOCK_OUT, or a TRANSFER to another warehouse than the source item's, whose source
  item exists (ids being unique): afterwards the source item holds its old quantity
  minus the transaction's, whatever the two are, and the transaction is APPROVED.
  The quantity therefore stays non-negative exactly when the transaction asks for no
  more than is there.
\<close>

theorem approve_subtracts_unchecked:
  assumes "distinct (map tx_id (transactions st))"
      and "tx \<in> set (transactions st)" and "tx_id tx = txId"
      and "distinct (map item_id (items st))"
      and "find (\<lambda>i. item_id i = itemId tx) (items st) = Some src"
      and "tx_type tx = STOCK_OUT \<or>
           (tx_type tx = TRANSFER \<and> targetWarehouseId tx \<noteq> Some (item_warehouseId src))"
  shows "quantity_of (itemId tx) (items (handleApproveTransaction env txId st)) =
           Some (quantity src - tx_quantity tx) \<and>
         transactions (handleApproveTransaction env txId st) =
           map (\<lambda>t. if tx_id t = txId then t\<lparr>tx_status := APPROVED\<rparr> else t) (transactions st)"
proof -
  have "tx_type tx = TRANSFER \<longrightarrow> targetWarehouseId tx \<noteq> Some (item_warehouseId src)"
    using assms(6) by auto
  then have "find (\<lambda>i. item_id i = itemId tx)
               (approve_items env (warehouses st) (categories st) src tx (items st)) =
             Some (src\<lparr>quantity := quantity src - tx_quantity tx, lastUpdated := iso env\<rparr>)"
    using assms(4,5) by (intro approve_items_source)
  then show ?thesis
    by (simp add: approve_found [OF assms(1,2,3,5)] quantity_of_def)
qed

theorem approve_subtracts_unchecked_witness:
  "distinct (map tx_id (transactions (st_out 4))) \<and>
   out_tx 4 \<in> set (transactions (st_out 4)) \<and>
   distinct (map item_id (items (st_out 4))) \<and>
   find (\<lambda>i. item_id i = itemId (out_tx 4)) (items (st_out 4)) = Some bolts \<and>
   tx_type (out_tx 4) = STOCK_OUT \<and>
   quantity_of ''it-1'' (items (handleApproveTransaction env1 ''TX-1'' (st_out 4))) = Some 6 \<and>
   transactions (handleApproveTransaction env1 ''TX-1'' (st_out 4)) =
     [(out_tx 4)\<lparr>tx_status := APPROVED\<rparr>]"
proof -
  have h: "distinct (map tx_id (transactions (st_out 4)))"
    "out_tx 4 \<in> set (transactions (st_out 4))" "tx_id (out_tx 4) = ''TX-1''"
    "distinct (map item_id (items (st_out 4)))"
    "find (\<lambda>i. item_id i = itemId (out_tx 4)) (items (st_out 4)) = Some bolts"
    "tx_type (out_tx 4) = STOCK_OUT \<or>
       (tx_type (out_tx 4) = TRANSFER \<and> targetWarehouseId (out_tx 4) \<noteq> Some (item_warehouseId bolts))"
    by (simp_all add: st_out_def st0_def out_tx_def bolts_def)
  have c: "transactions (st_out 4) = [out_tx 4]" "itemId (out_tx 4) = ''it-1''"
    "quantity bolts = 10" "tx_quantity (out_tx 4) = 4" "tx_type (out_tx 4) = STOCK_OUT"
    by (simp_all add: st_out_def st0_def out_tx_def bolts_def)
  show ?thesis
    using h(1,2,4,5) approve_subtracts_unchecked [OF h, of env1]
    by (simp add: c h(3))
qed

text \<open>
  Claim C8, as amended. The request handlers check nothing: for every quantity, zero,
  negative or more than the item holds, \<open>handleStockInRequest\<close> and
  \<open>handleStockOutRequest\<close> append a PENDING transaction for that quantity, and, the
  queue write succeeding, one action carrying it. The check is in the form of the scan
  flow, on the whole number it read from its field: for a quantity of zero or less, and
  for a stock-out of more than the item holds, \<open>validateAndConfirm\<close> sets an error
  and calls no handler, so the state is as before; for every other quantity it calls
  the handler with it.
\<close>

theorem quantity_checked_by_form_only:
  "transactions (handleStockInRequest env item qty st) =
     transactions st @ [last (transactions (handleStockInRequest env item qty st))] \<and>
   tx_quantity (last (transactions (handleStockInRequest env item qty st))) = qty \<and>
   tx_status (last (transactions (handleStockInRequest env item qty st))) = PENDING \<and>
   transactions (handleStockOutRequest env item qty st) =
     transactions st @ [last (transactions (handleStockOutRequest env item qty st))] \<and>
   tx_quantity (last (transactions (handleStockOutRequest env item qty st))) = qty \<and>
   tx_status (last (transactions (handleStockOutRequest env item qty st))) = PENDING \<and>
   (db_up env \<and> store_ok (syncQueue st) \<longrightarrow>
      dbGetAll (syncQueue (handleStockInRequest env item qty st)) =
        dbGetAll (syncQueue st) @
          [\<lparr>sa_id = Some (next_key (syncQueue st)), sa_type = ''STOCK_IN'',
            payload = TxPayload (last (transactions (handleStockInRequest env item qty st))),
            sa_status = S_PENDING, sa_timestamp = iso env, retries = 0\<rparr>] \<and>
      dbGetAll (syncQueue (handleStockOutRequest env item qty st)) =
        dbGetAll (syncQueue st) @
          [\<lparr>sa_id = Some (next_key (syncQueue st)), sa_type = ''STOCK_OUT'',
            payload = TxPayload (last (transactions (handleStockOutRequest env item qty st))),
            sa_status = S_PENDING, sa_timestamp = iso env, retries = 0\<rparr>]) \<and>
   (qty \<le> 0 \<longrightarrow>
      validateAndConfirm env True item qty (handleStockInRequest env item) (err, st) =
        (Some ''Quantity must be at least 1.'', st) \<and>
      validateAndConfirm env False item qty (handleStockOutRequest env item) (err, st) =
        (Some ''Quantity must be at least 1.'', st)) \<and>
   (0 < qty \<and> quantity item < qty \<longrightarrow>
      fst (validateAndConfirm env False item qty (handleStockOutRequest env item) (err, st)) \<noteq> None \<and>
      snd (validateAndConfirm env False item qty (handleStockOutRequest env item) (err, st)) = st) \<and>
   (0 < qty \<longrightarrow>
      validateAndConfirm env True item qty (handleStockInRequest env item) (err, st) =
        (err, handleStockInRequest env item qty st)) \<and>
   (0 < qty \<and> qty \<le> quantity item \<longrightarrow>
      validateAndConfirm env False item qty (handleStockOutRequest env item) (err, st) =
        (err, handleStockOutRequest env item qty st))"
  by (simp add: handleStockInRequest_def handleStockOutRequest_def validateAndConfirm_def
      enqueue_unawaited_def enqueue_all stored_def Let_def)

text \<open>
  The claim as stated fails: called with the quantity -5, and with 15 for an item that
  holds 10, \<open>handleStockOutRequest\<close> creates the transaction and queues the action.
\<close>

theorem request_unchecked_counterexample:
  "quantity bolts = 10 \<and>
   transactions (handleStockOutRequest env1 bolts (- 5) st0) =
     [\<lparr>tx_id = ''TX-1723'', tx_type = STOCK_OUT, itemId = ''it-1'', tx_warehouseId = ''w1'',
       targetWarehouseId = None, tx_quantity = - 5, tx_status = PENDING,
       staffName = ''John Staff'', tx_timestamp = ''t1'', rejectionReason = None\<rparr>] \<and>
   map sa_type (dbGetAll (syncQueue (handleStockOutRequest env1 bolts (- 5) st0))) = [''STOCK_OUT''] \<and>
   transactions (handleStockOutRequest env1 bolts 15 st0) =
     [\<lparr>tx_id = ''TX-1723'', tx_type = STOCK_OUT, itemId = ''it-1'', tx_warehouseId = ''w1'',
       targetWarehouseId = None, tx_quantity = 15, tx_status = PENDING,
       staffName = ''John Staff'', tx_timestamp = ''t1'', rejectionReason = None\<rparr>] \<and>
   map sa_type (dbGetAll (syncQueue (handleStockOutRequest env1 bolts 15 st0))) = [''STOCK_OUT''] \<and>
   transactions (handleStockInRequest env1 bolts 0 st0) =
     [\<lparr>tx_id = ''TX-1723'', tx_type = STOCK_IN, itemId = ''it-1'', tx_warehouseId = ''w1'',
       targetWarehouseId = None, tx_quantity = 0, tx_status = PENDING,
       staffName = ''John Staff'', tx_timestamp = ''t1'', rejectionReason = None\<rparr>] \<and>
   map sa_type (dbGetAll (syncQueue (handleStockInRequest env1 bolts 0 st0))) = [''STOCK_IN'']"
  by (simp add: handleStockOutRequest_def handleStockInRequest_def env1_def bolts_def st0_def
      enqueue_unawaited_def enqueueSyncAction_def dbPut_def empty_store_def dbGetAll_def
      show_nat.simps Let_def)

theorem quantity_checked_by_form_only_witness:
  "db_up env1 \<and> store_ok (syncQueue st0) \<and> quantity bolts = 10 \<and>
   tx_quantity (last (transactions (handleStockOutRequest env1 bolts (- 5) st0))) = - 5 \<and>
   map sa_type (dbGetAll (syncQueue (handleStockOutRequest env1 bolts (- 5) st0))) = [''STOCK_OUT''] \<and>
   validateAndConfirm env1 True bolts 0 (handleStockInRequest env1 bolts) (None, st0) =
     (Some ''Quantity must be at least 1.'', st0) \<and>
   validateAndConfirm env1 False bolts (- 5) (handleStockOutRequest env1 bolts) (None, st0) =
     (Some ''Quantity must be at least 1.'', st0) \<and>
   snd (validateAndConfirm env1 False bolts 15 (handleStockOutRequest env1 bolts) (None, st0)) = st0 \<and>
   validateAndConfirm env1 True bolts 15 (handleStockInRequest env1 bolts) (None, st0) =
     (None, handleStockInRequest env1 bolts 15 st0) \<and>
   validateAndConfirm env1 False bolts 10 (handleStockOutRequest env1 bolts) (None, st0) =
     (None, handleStockOutRequest env1 bolts 10 st0) \<and>
   tx_quantity (last (transactions (handleStockOutRequest env1 bolts 10 st0))) = 10"
proof -
  have h: "db_up env1" "store_ok (syncQueue st0)" "quantity bolts = 10"
    "dbGetAll (syncQueue st0) = []"
    by (simp_all add: env1_def st0_def empty_store_def store_ok_def bolts_def dbGetAll_def)
  note T1 = quantity_checked_by_form_only [of env1 bolts "- 5" st0 None]
  note T2 = quantity_checked_by_form_only [of env1 bolts 0 st0 None]
  note T3 = quantity_checked_by_form_only [of env1 bolts 15 st0 None]
  note T4 = quantity_checked_by_form_only [of env1 bolts 10 st0 None]
  show ?thesis
    using h T1 T2 T3 T4 by simp
qed

text \<open>
  Claim C7, as amended. \<open>handleRejectTransaction\<close> takes every reason, the empty one
  too: for a transaction of the collection (ids unique) it marks it REJECTED with
  exactly the reason given, leaves the items alone, and appends one REJECT action
  carrying the transaction id and the reason to the queue when the write succeeds; when
  the write fails the queue is as before. Only the dashboard's dialog asks for a reason:
  with an empty final reason (nothing picked, or the custom option with nothing typed)
  it returns at once and nothing changes; with any other it calls the handler with the
  id of the transaction it holds and that reason, and clears itself.
\<close>

theorem reject_takes_any_reason:
  assumes "distinct (map tx_id (transactions st))" and "tx \<in> set (transactions st)"
      and "store_ok (syncQueue st)"
  shows "transactions (handleRejectTransaction env (tx_id tx) reason st) =
           map (\<lambda>t. if tx_id t = tx_id tx
                    then t\<lparr>tx_status := REJECTED, rejectionReason := Some reason\<rparr> else t)
             (transactions st) \<and>
         items (handleRejectTransaction env (tx_id tx) reason st) = items st \<and>
         dbGetAll (syncQueue (handleRejectTransaction env (tx_id tx) reason st)) =
           dbGetAll (syncQueue st) @
             (if db_up env
              then [\<lparr>sa_id = Some (next_key (syncQueue st)), sa_type = ''REJECT'',
                     payload = RejectPayload (tx_id tx) reason, sa_status = S_PENDING,
                     sa_timestamp = iso env, retries = 0\<rparr>]
              else []) \<and>
         (finalReason d = [] \<longrightarrow> reject env d st = (d, st)) \<and>
         (finalReason d \<noteq> [] \<and> rejectingTx d = Some rtx \<longrightarrow>
            reject env d st =
              (\<lparr>rejectingTx = None, dlg_rejectionReason = [], customReason = []\<rparr>,
               handleRejectTransaction env (tx_id rtx) (finalReason d) st))"
proof -
  have f: "handleRejectTransaction env (tx_id tx) reason st =
           st\<lparr>notifications := addNotification env ''Transaction Rejected''
                  (type_name (tx_type tx) @ '' request for '' @
                     or_default (map_option item_name (find (\<lambda>i. item_id i = itemId tx) (items st))) ''Item'' @
                     '' was declined.'')
                  (notifications st),
              syncQueue := enqueue_unawaited env
                  \<lparr>in_type = ''REJECT'', in_payload = RejectPayload (tx_id tx) reason,
                   in_timestamp = iso env\<rparr> (syncQueue st),
              transactions := map (\<lambda>t. if tx_id t = tx_id tx
                                        then t\<lparr>tx_status := REJECTED, rejectionReason := Some reason\<rparr>
                                        else t) (transactions st)\<rparr>"
    using assms(1,2) by (intro reject_found) simp_all
  have 1: "transactions (handleRejectTransaction env (tx_id tx) reason st) =
           map (\<lambda>t. if tx_id t = tx_id tx
                    then t\<lparr>tx_status := REJECTED, rejectionReason := Some reason\<rparr> else t)
             (transactions st)"
    and 2: "items (handleRejectTransaction env (tx_id tx) reason st) = items st"
    and 3: "dbGetAll (syncQueue (handleRejectTransaction env (tx_id tx) reason st)) =
           dbGetAll (syncQueue st) @
             (if db_up env
              then [\<lparr>sa_id = Some (next_key (syncQueue st)), sa_type = ''REJECT'',
                     payload = RejectPayload (tx_id tx) reason, sa_status = S_PENDING,
                     sa_timestamp = iso env, retries = 0\<rparr>]
              else [])"
    using assms(3) unfolding f by (simp_all add: enqueue_unawaited_def enqueue_all stored_def)
  have 4: "finalReason d = [] \<longrightarrow> reject env d st = (d, st)"
    by (simp add: reject_def handleFinalReject_def split: option.splits)
  have 5: "finalReason d \<noteq> [] \<and> rejectingTx d = Some rtx \<longrightarrow>
            reject env d st =
              (\<lparr>rejectingTx = None, dlg_rejectionReason = [], customReason = []\<rparr>,
               handleRejectTransaction env (tx_id rtx) (finalReason d) st)"
    by (simp add: reject_def handleFinalReject_def)
  show ?thesis using 1 2 3 4 5 by blast
qed

text \<open>
  The claim as stated fails: called with the empty reason, \<open>handleRejectTransaction\<close>
  rejects the transaction, stores the empty reason and queues a REJECT action with it.
\<close>

theorem reject_empty_reason_counterexample:
  "transactions (handleRejectTransaction env1 ''TX-1'' [] (st_out 3)) =
     [(out_tx 3)\<lparr>tx_status := REJECTED, rejectionReason := Some []\<rparr>] \<and>
   dbGetAll (syncQueue (handleRejectTransaction env1 ''TX-1'' [] (st_out 3))) =
     [\<lparr>sa_id = Some 1, sa_type = ''REJECT'', payload = RejectPayload ''TX-1'' [],
       sa_status = S_PENDING, sa_timestamp = ''t1'', retries = 0\<rparr>]"
proof -
  have t: "transactions (handleRejectTransaction env1 ''TX-1'' [] (st_out 3)) =
     [(out_tx 3)\<lparr>tx_status := REJECTED, rejectionReason := Some []\<rparr>]"
    by (simp add: handleRejectTransaction_def reject_tx_def st_out_def st0_def out_tx_def Let_def)
  have q: "dbGetAll (syncQueue (handleRejectTransaction env1 ''TX-1'' [] (st_out 3))) =
     [\<lparr>sa_id = Some 1, sa_type = ''REJECT'', payload = RejectPayload ''TX-1'' [],
       sa_status = S_PENDING, sa_timestamp = ''t1'', retries = 0\<rparr>]"
    by (simp add: handleRejectTransaction_def reject_tx_def st_out_def st0_def out_tx_def Let_def
        enqueue_unawaited_def env1_def enqueueSyncAction_def dbPut_def empty_store_def dbGetAll_def)
  show ?thesis using t q by simp
qed

theorem reject_takes_any_reason_witness:
  "distinct (map tx_id (transactions (st_out 3))) \<and> out_tx 3 \<in> set (transactions (st_out 3)) \<and>
   store_ok (syncQueue (st_out 3)) \<and>
   transactions (handleRejectTransaction env1 ''TX-1'' ''Hub Capacity Reached'' (st_out 3)) =
     [(out_tx 3)\<lparr>tx_status := REJECTED, rejectionReason := Some ''Hub Capacity Reached''\<rparr>] \<and>
   items (handleRejectTransaction env1 ''TX-1'' ''Hub Capacity Reached'' (st_out 3)) = [bolts] \<and>
   dbGetAll (syncQueue (handleRejectTransaction env1 ''TX-1'' ''Hub Capacity Reached'' (st_out 3))) =
     [\<lparr>sa_id = Some 1, sa_type = ''REJECT'',
       payload = RejectPayload ''TX-1'' ''Hub Capacity Reached'', sa_status = S_PENDING,
       sa_timestamp = ''t1'', retries = 0\<rparr>] \<and>
   dbGetAll (syncQueue (handleRejectTransaction env_down ''TX-1'' ''Hub Capacity Reached'' (st_out 3))) = [] \<and>
   finalReason (dialog ''Other / Custom Reason'' []) = [] \<and>
   reject env1 (dialog ''Other / Custom Reason'' []) (st_out 3) =
     (dialog ''Other / Custom Reason'' [], st_out 3) \<and>
   finalReason (dialog ''Other / Custom Reason'' ''Damaged'') = ''Damaged'' \<and>
   reject env1 (dialog ''Other / Custom Reason'' ''Damaged'') (st_out 3) =
     (\<lparr>rejectingTx = None, dlg_rejectionReason = [], customReason = []\<rparr>,
      handleRejectTransaction env1 ''TX-1'' ''Damaged'' (st_out 3))"
proof -
  have h: "distinct (map tx_id (transactions (st_out 3)))" "out_tx 3 \<in> set (transactions (st_out 3))"
    "store_ok (syncQueue (st_out 3))"
    by (simp_all add: st_out_def st0_def empty_store_def store_ok_def)
  have r: "finalReason (dialog ''Other / Custom Reason'' []) = []"
    "finalReason (dialog ''Other / Custom Reason'' ''Damaged'') = ''Damaged''"
    "rejectingTx (dialog ''Other / Custom Reason'' ''Damaged'') = Some (out_tx 3)"
    by (simp_all add: finalReason_def dialog_def)
  have c: "transactions (st_out 3) = [out_tx 3]" "items (st_out 3) = [bolts]"
    "dbGetAll (syncQueue (st_out 3)) = []" "next_key (syncQueue (st_out 3)) = 1"
    "tx_id (out_tx 3) = ''TX-1''" "iso env1 = ''t1''" "db_up env1" "\<not> db_up env_down"
    by (simp_all add: st_out_def st0_def empty_store_def dbGetAll_def out_tx_def env1_def env_down_def)
  note T1 = reject_takes_any_reason [OF h, of env1 "''Hub Capacity Reached''"
      "dialog ''Other / Custom Reason'' []" "out_tx 3"]
  note T2 = reject_takes_any_reason [OF h, of env_down "''Hub Capacity Reached''"
      "dialog ''Other / Custom Reason'' ''Damaged''" "out_tx 3"]
  note T3 = reject_takes_any_reason [OF h, of env1 "''Hub Capacity Reached''"
      "dialog ''Other / Custom Reason'' ''Damaged''" "out_tx 3"]
  show ?thesis
    using h r T1 T2 T3 by (simp add: c)
qed








lemma show_nat_digits: "set (show_nat n) \<subseteq> set ''0123456789''"
proof (induction n rule: show_nat.induct)
  case (1 n)
  have d: "''0123456789'' ! k \<in> set ''0123456789''" if "k < 10" for k
    using that nth_mem [of k "''0123456789''"] by simp
  show ?case
  proof (cases "n < 10")
    case True
    then show ?thesis using d [of n] by (subst show_nat.simps) simp
  next
    case False
    then show ?thesis using 1 d [of "n mod 10"] by (subst show_nat.simps) simp
  qed
qed

lemma no_dash_in_show_nat: "CHR ''-'' \<notin> set (show_nat n)"
  using show_nat_digits [of n] by auto

lemma split_on_nonempty: "split_on c s \<noteq> []"
  by (induction s) (simp_all split: list.splits)

lemma split_on_prefix:
  "c \<notin> set a \<Longrightarrow> split_on c (a @ c # rest) = a # split_on c rest"
  by (induction a) (auto split: list.splits)

lemma part1_new_item_id:
  "part1 (split_on CHR ''-'' (''it-'' @ show_nat n @ ''-'' @ r)) = show_nat n"
proof -
  have "split_on CHR ''-'' (''it'' @ CHR ''-'' # (show_nat n @ CHR ''-'' # r)) =
        ''it'' # split_on CHR ''-'' (show_nat n @ CHR ''-'' # r)"
    by (rule split_on_prefix) simp
  moreover have "split_on CHR ''-'' (show_nat n @ CHR ''-'' # r) = show_nat n # split_on CHR ''-'' r"
    by (rule split_on_prefix) (rule no_dash_in_show_nat)
  ultimately show ?thesis by (simp add: part1_def)
qed

lemma matches_debit [simp]: "matches_target target src (debit env tx i) = matches_target target src i"
  by (simp add: matches_target_def)

lemma find_matches_updated:
  "find (\<lambda>i. item_warehouseId i = target \<and> item_categoryId i = item_categoryId src \<and>
               item_name i = item_name src) (map (debit env tx) its) =
   map_option (debit env tx) (find (matches_target target src) its)"
proof -
  have "(\<lambda>i. item_warehouseId i = target \<and> item_categoryId i = item_categoryId src \<and>
               item_name i = item_name src) = matches_target target src"
    by (rule ext) (simp add: matches_target_def)
  then show ?thesis by (simp add: find_map_pres)
qed

lemma approve_items_transfer:
  assumes "tx_type tx = TRANSFER" "targetWarehouseId tx = Some target" "target \<noteq> []"
  shows "approve_items env whs cats src tx its =
     (case find (matches_target target src) its of
        Some existing \<Rightarrow>
          map (credit env (item_id existing) (tx_quantity tx)) (map (debit env tx) its)
      | None \<Rightarrow>
          map (debit env tx) its @
          [src\<lparr>item_id := new_item_id env,
               item_warehouseId := target,
               quantity := tx_quantity tx,
               barcode := or_default (map_option prefix (find (\<lambda>w. wh_id w = target) whs)) ''WH'' @ ''-'' @
                          or_default (map_option code
                             (find (\<lambda>c. cat_id c = item_categoryId src) cats)) ''GEN'' @ ''-'' @
                          show_nat (now env),
               lastUpdated := iso env\<rparr>])"
  using assms part1_new_item_id [of "now env" "show_nat (random1000 env)"]
  by (simp add: approve_items_alt find_matches_updated new_item_id_def split: option.splits)

lemma credit_other:
  "item_id i \<noteq> k \<Longrightarrow> credit env k q i = i"
  by (simp add: credit_def)

lemma debit_other:
  "item_id i \<noteq> itemId tx \<Longrightarrow> debit env tx i = i"
  by (simp add: debit_def)

lemma merge_quantity:
  assumes d: "distinct (map item_id its)"
      and e: "find (matches_target target src) its = Some existing"
  shows "quantity_of (item_id existing)
           (map (credit env (item_id existing) q) (map (debit env tx) its)) =
         Some ((if item_id existing = itemId tx then quantity existing - tx_quantity tx
                else quantity existing) + q)"
proof -
  have e1: "existing \<in> set its"
    using e by (auto simp: find_Some_iff)
  have f: "find (\<lambda>i. item_id i = item_id existing) its = Some existing"
    using d e1 by (intro find_id_in_set) simp_all
  have "find (\<lambda>i. item_id i = item_id existing)
          (map (credit env (item_id existing) q) (map (debit env tx) its)) =
        map_option (credit env (item_id existing) q)
          (map_option (debit env tx) (find (\<lambda>i. item_id i = item_id existing) its))"
    by (simp add: find_map_pres option.map_comp)
  then show ?thesis
    using f by (simp add: quantity_of_def debit_def credit_def)
qed

lemma transfer_items:
  assumes "distinct (map tx_id (transactions st))"
      and "tx \<in> set (transactions st)" and "tx_id tx = txId"
      and "find (\<lambda>i. item_id i = itemId tx) (items st) = Some src"
      and "tx_type tx = TRANSFER" and "targetWarehouseId tx = Some target" and "target \<noteq> []"
  shows "items (handleApproveTransaction env txId st) =
     (case find (matches_target target src) (items st) of
        Some existing \<Rightarrow>
          map (credit env (item_id existing) (tx_quantity tx)) (map (debit env tx) (items st))
      | None \<Rightarrow>
          map (debit env tx) (items st) @
          [transferred_item env (warehouses st) (categories st) src target (tx_quantity tx)])"
  unfolding transferred_item_def
  by (simp add: approve_found [OF assms(1,2,3,4)] approve_items_transfer [OF assms(5,6,7)])

lemma approve_frame:
  assumes "distinct (map tx_id (transactions st))"
      and "tx \<in> set (transactions st)" and "tx_id tx = txId"
      and "find (\<lambda>i. item_id i = itemId tx) (items st) = Some src"
  shows "warehouses (handleApproveTransaction env txId st) = warehouses st"
    and "categories (handleApproveTransaction env txId st) = categories st"
    and "transactions (handleApproveTransaction env txId st) =
           map (\<lambda>t. if tx_id t = txId then t\<lparr>tx_status := APPROVED\<rparr> else t) (transactions st)"
  by (simp_all add: approve_found [OF assms])

lemma transferred_item_fields [simp]:
  "item_id (transferred_item env whs cats src target q) = new_item_id env"
  "item_warehouseId (transferred_item env whs cats src target q) = target"
  "item_categoryId (transferred_item env whs cats src target q) = item_categoryId src"
  "item_name (transferred_item env whs cats src target q) = item_name src"
  "quantity (transferred_item env whs cats src target q) = q"
  by (simp_all add: transferred_item_def)

lemma matches_credit [simp]:
  "matches_target target src (credit env k q i) = matches_target target src i"
  by (simp add: matches_target_def)

lemma find_None_filter: "find P xs = None \<Longrightarrow> filter P xs = []"
  by (induction xs) (simp_all split: if_splits)

lemma mark_keeps_tx_ids:
  "map tx_id (map (\<lambda>t. if tx_id t = k then t\<lparr>tx_status := v\<rparr> else t) txs) = map tx_id txs"
  by (induction txs) simp_all

lemma mark_keeps_other:
  "t \<in> set txs \<Longrightarrow> tx_id t \<noteq> k \<Longrightarrow>
   t \<in> set (map (\<lambda>t. if tx_id t = k then t\<lparr>tx_status := v\<rparr> else t) txs)"
  by (induction txs) auto

lemma transfer_twice:
  assumes dt: "distinct (map tx_id (transactions st))"
      and t1: "tx1 \<in> set (transactions st)" "tx_id tx1 = k1"
      and t2: "tx2 \<in> set (transactions st)" "tx_id tx2 = k2" "k1 \<noteq> k2"
      and ty: "tx_type tx1 = TRANSFER" "tx_type tx2 = TRANSFER"
      and tg: "targetWarehouseId tx1 = Some target" "targetWarehouseId tx2 = Some target"
              "target \<noteq> []"
      and same: "itemId tx2 = itemId tx1"
      and di: "distinct (map item_id (items st))"
      and src: "find (\<lambda>i. item_id i = itemId tx1) (items st) = Some src"
      and none: "find (matches_target target src) (items st) = None"
      and fresh: "new_item_id ea \<notin> item_id ` set (items st)"
  shows "length (items (handleApproveTransaction eb k2 (handleApproveTransaction ea k1 st))) =
           length (items st) + 1"
    and "quantity_of (new_item_id ea)
           (items (handleApproveTransaction eb k2 (handleApproveTransaction ea k1 st))) =
           Some (tx_quantity tx1 + tx_quantity tx2)"
    and "length (filter (matches_target target src)
           (items (handleApproveTransaction eb k2 (handleApproveTransaction ea k1 st)))) = 1"
proof -
  let ?st1 = "handleApproveTransaction ea k1 st"
  let ?st2 = "handleApproveTransaction eb k2 ?st1"
  let ?n1 = "transferred_item ea (warehouses st) (categories st) src target (tx_quantity tx1)"
  let ?upd = "map (debit ea tx1) (items st)"
  let ?src1 = "debit ea tx1 src"
  have i1: "items ?st1 = ?upd @ [?n1]"
    using transfer_items [OF dt t1 src ty(1) tg(1,3), of ea] none by simp
  have tr1: "transactions ?st1 =
      map (\<lambda>t. if tx_id t = k1 then t\<lparr>tx_status := APPROVED\<rparr> else t) (transactions st)"
    using approve_frame(3) [OF dt t1 src] .
  have dt1: "distinct (map tx_id (transactions ?st1))"
    unfolding tr1 mark_keeps_tx_ids using dt .
  have m2: "tx2 \<in> set (transactions ?st1)"
    unfolding tr1 using t2 by (intro mark_keeps_other) simp_all
  have di1: "distinct (map item_id (items ?st1))"
    using di fresh unfolding i1 by (simp add: comp_def)
  have s1: "find (\<lambda>i. item_id i = itemId tx2) (items ?st1) = Some ?src1"
    unfolding i1 same using src by (simp add: find_app find_map_pres)
  have mt: "matches_target target ?src1 = matches_target target src"
    by (rule ext) (simp add: matches_target_def)
  have mn: "matches_target target src ?n1"
    by (simp add: matches_target_def)
  have e1: "find (matches_target target ?src1) (items ?st1) = Some ?n1"
    unfolding mt i1 using none mn by (simp add: find_app find_map_pres)
  have "src \<in> set (items st)" "item_id src = itemId tx1"
    using src by (auto simp: find_Some_iff)
  then have ne: "item_id ?n1 \<noteq> itemId tx2"
    using fresh same by (auto simp: image_iff)
  have i2: "items ?st2 =
      map (credit eb (item_id ?n1) (tx_quantity tx2)) (map (debit eb tx2) (items ?st1))"
    using transfer_items [OF dt1 m2 t2(2) s1 ty(2) tg(2,3), of eb] e1 by simp
  show "length (items ?st2) = length (items st) + 1"
    unfolding i2 i1 by simp
  have "quantity_of (item_id ?n1) (items ?st2) =
        Some ((if item_id ?n1 = itemId tx2 then quantity ?n1 - tx_quantity tx2 else quantity ?n1) +
              tx_quantity tx2)"
    unfolding i2 using di1 e1 by (rule merge_quantity)
  then have "quantity_of (item_id ?n1) (items ?st2) = Some (quantity ?n1 + tx_quantity tx2)"
    using ne by simp
  then show "quantity_of (new_item_id ea) (items ?st2) = Some (tx_quantity tx1 + tx_quantity tx2)"
    by simp
  have "filter (matches_target target src) (items ?st2) =
        map (credit eb (item_id ?n1) (tx_quantity tx2))
          (map (debit eb tx2) (filter (matches_target target src) (items ?st1)))"
    unfolding i2 by (simp add: filter_map comp_def)
  moreover have "matches_target target src ?n1"
    by (simp add: matches_target_def)
  then have "filter (matches_target target src) (items ?st1) = [?n1]"
    unfolding i1 using find_None_filter [OF none]
    by (simp add: filter_map comp_def)
  ultimately show "length (filter (matches_target target src) (items ?st2)) = 1"
    by simp
qed

lemma transferred_item_clone: "clone_of src (transferred_item env whs cats src target q)"
  by (simp add: clone_of_def transferred_item_def)

lemma transferred_item_barcode:
  assumes "find (\<lambda>w. wh_id w = target) whs = Some w" "prefix w \<noteq> []"
      and "find (\<lambda>c. cat_id c = item_categoryId src) cats = Some c" "code c \<noteq> []"
  shows "barcode (transferred_item env whs cats src target q) =
           prefix w @ ''-'' @ code c @ ''-'' @ show_nat (now env)"
  using assms by (simp add: transferred_item_def or_default_def)

lemma transfer_untargeted:
  assumes "distinct (map tx_id (transactions st))"
      and "tx \<in> set (transactions st)" and "tx_id tx = txId"
      and "find (\<lambda>i. item_id i = itemId tx) (items st) = Some src"
      and "targetWarehouseId tx = None \<or> targetWarehouseId tx = Some []"
  shows "items (handleApproveTransaction env txId st) = map (debit env tx) (items st)"
  using assms(5)
  by (auto simp: approve_found [OF assms(1,2,3,4)] approve_items_alt)

lemma no_match_other_warehouse:
  assumes "find (\<lambda>i. item_id i = itemId tx) its = Some src"
      and "find (matches_target target src) its = None"
  shows "item_warehouseId src \<noteq> target"
proof
  assume "item_warehouseId src = target"
  then have "matches_target target src src" by (simp add: matches_target_def)
  moreover have "src \<in> set its" using assms(1) by (auto simp: find_Some_iff)
  ultimately show False using assms(2) by (auto simp: find_None_iff)
qed

text \<open>
  Claim C6, as amended. Approving a TRANSFER whose source item exists (transaction and
  item ids unique), where the transaction names a target warehouse. When an item of the
  target warehouse has the source's category and name, every item with the id of the
  first such item gains the transaction's quantity and the list of items keeps its
  length; that item then holds its quantity plus the transaction's, or, when it is the
  source itself, what it held before. When none has, the source is in another
  warehouse and one item is appended: the source's name, category, cost fields and
  status, the target as warehouse, the transaction's quantity, the barcode
  \<open>{prefix}-{code}-{clock}\<close> of the target warehouse and the source's category, and
  the id \<open>it-{clock}-{random}\<close>, which is not compared with the ids in use. If that id
  is in use by no item, ids stay unique, and approving a second transfer of the same
  item to the same target afterwards adds to the created item: still one more item than
  at the start, holding both quantities, and the only match in the target warehouse.
  When the transaction names no target, or the empty one, the source is debited and
  nothing else changes.
\<close>

theorem transfer_merge_or_create:
  assumes dt: "distinct (map tx_id (transactions st))"
      and tx: "tx \<in> set (transactions st)" "tx_id tx = txId"
      and di: "distinct (map item_id (items st))"
      and src: "find (\<lambda>i. item_id i = itemId tx) (items st) = Some src"
      and ty: "tx_type tx = TRANSFER"
  shows
   "(targetWarehouseId tx = Some target \<and> target \<noteq> [] \<longrightarrow>
    (\<forall>existing. find (matches_target target src) (items st) = Some existing \<longrightarrow>
       items (handleApproveTransaction env txId st) =
         map (credit env (item_id existing) (tx_quantity tx)) (map (debit env tx) (items st)) \<and>
       length (items (handleApproveTransaction env txId st)) = length (items st) \<and>
       quantity_of (item_id existing) (items (handleApproveTransaction env txId st)) =
         Some (if item_id existing = itemId tx then quantity existing
               else quantity existing + tx_quantity tx)) \<and>
    (find (matches_target target src) (items st) = None \<longrightarrow>
       item_warehouseId src \<noteq> target \<and>
       items (handleApproveTransaction env txId st) =
         map (debit env tx) (items st) @
         [transferred_item env (warehouses st) (categories st) src target (tx_quantity tx)] \<and>
       clone_of src (transferred_item env (warehouses st) (categories st) src target (tx_quantity tx)) \<and>
       item_id (transferred_item env (warehouses st) (categories st) src target (tx_quantity tx)) =
         ''it-'' @ show_nat (now env) @ ''-'' @ show_nat (random1000 env) \<and>
       item_warehouseId (transferred_item env (warehouses st) (categories st) src target (tx_quantity tx)) =
         target \<and>
       quantity (transferred_item env (warehouses st) (categories st) src target (tx_quantity tx)) =
         tx_quantity tx \<and>
       (\<forall>w c. find (\<lambda>w. wh_id w = target) (warehouses st) = Some w \<and> prefix w \<noteq> [] \<and>
              find (\<lambda>c. cat_id c = item_categoryId src) (categories st) = Some c \<and> code c \<noteq> [] \<longrightarrow>
          barcode (transferred_item env (warehouses st) (categories st) src target (tx_quantity tx)) =
            prefix w @ ''-'' @ code c @ ''-'' @ show_nat (now env)) \<and>
       (new_item_id env \<notin> item_id ` set (items st) \<longrightarrow>
          distinct (map item_id (items (handleApproveTransaction env txId st))) \<and>
          (\<forall>env' tx'. tx' \<in> set (transactions st) \<and> tx_id tx' \<noteq> txId \<and> tx_type tx' = TRANSFER \<and>
                 targetWarehouseId tx' = Some target \<and> itemId tx' = itemId tx \<longrightarrow>
             length (items (handleApproveTransaction env' (tx_id tx')
                       (handleApproveTransaction env txId st))) = length (items st) + 1 \<and>
             quantity_of (new_item_id env)
                (items (handleApproveTransaction env' (tx_id tx')
                       (handleApproveTransaction env txId st))) =
               Some (tx_quantity tx + tx_quantity tx') \<and>
             length (filter (matches_target target src)
                (items (handleApproveTransaction env' (tx_id tx')
                       (handleApproveTransaction env txId st)))) = 1)))) \<and>
    (targetWarehouseId tx = None \<or> targetWarehouseId tx = Some [] \<longrightarrow>
       items (handleApproveTransaction env txId st) = map (debit env tx) (items st))"
proof (intro conjI allI impI)
  fix existing
  assume tg: "targetWarehouseId tx = Some target \<and> target \<noteq> []"
  assume e: "find (matches_target target src) (items st) = Some existing"
  have tg1: "targetWarehouseId tx = Some target" and tg2: "target \<noteq> []" using tg by simp_all
  show i: "items (handleApproveTransaction env txId st) =
         map (credit env (item_id existing) (tx_quantity tx)) (map (debit env tx) (items st))"
    using transfer_items [OF dt tx src ty tg1 tg2, of env] e by simp
  show "length (items (handleApproveTransaction env txId st)) = length (items st)"
    unfolding i by simp
  show "quantity_of (item_id existing) (items (handleApproveTransaction env txId st)) =
         Some (if item_id existing = itemId tx then quantity existing
               else quantity existing + tx_quantity tx)"
    unfolding i merge_quantity [OF di e] by simp
next
  assume tg: "targetWarehouseId tx = Some target \<and> target \<noteq> []"
  assume n: "find (matches_target target src) (items st) = None"
  have tg1: "targetWarehouseId tx = Some target" and tg2: "target \<noteq> []" using tg by simp_all
  show "item_warehouseId src \<noteq> target"
    using src n by (rule no_match_other_warehouse)
  show i: "items (handleApproveTransaction env txId st) =
         map (debit env tx) (items st) @
         [transferred_item env (warehouses st) (categories st) src target (tx_quantity tx)]"
    using transfer_items [OF dt tx src ty tg1 tg2, of env] n by simp
  show "clone_of src (transferred_item env (warehouses st) (categories st) src target (tx_quantity tx))"
    by (rule transferred_item_clone)
  show "item_id (transferred_item env (warehouses st) (categories st) src target (tx_quantity tx)) =
         ''it-'' @ show_nat (now env) @ ''-'' @ show_nat (random1000 env)"
    by (simp add: new_item_id_def)
  show "item_warehouseId (transferred_item env (warehouses st) (categories st) src target (tx_quantity tx)) =
         target"
    by simp
  show "quantity (transferred_item env (warehouses st) (categories st) src target (tx_quantity tx)) =
         tx_quantity tx"
    by simp
  {
    fix w c
    assume "find (\<lambda>w. wh_id w = target) (warehouses st) = Some w \<and> prefix w \<noteq> [] \<and>
            find (\<lambda>c. cat_id c = item_categoryId src) (categories st) = Some c \<and> code c \<noteq> []"
    then show "barcode (transferred_item env (warehouses st) (categories st) src target (tx_quantity tx)) =
            prefix w @ ''-'' @ code c @ ''-'' @ show_nat (now env)"
      by (intro transferred_item_barcode) simp_all
  }
  {
    assume f: "new_item_id env \<notin> item_id ` set (items st)"
    show "distinct (map item_id (items (handleApproveTransaction env txId st)))"
      unfolding i using di f by (simp add: comp_def)
    fix env' tx'
    assume a: "tx' \<in> set (transactions st) \<and> tx_id tx' \<noteq> txId \<and> tx_type tx' = TRANSFER \<and>
                 targetWarehouseId tx' = Some target \<and> itemId tx' = itemId tx"
    have k: "txId \<noteq> tx_id tx'" using a by auto
    have t': "tx' \<in> set (transactions st)" "tx_id tx' = tx_id tx'" "tx_type tx' = TRANSFER"
      "targetWarehouseId tx' = Some target" "itemId tx' = itemId tx"
      using a by simp_all
    note tw = transfer_twice [OF dt tx t'(1,2) k ty t'(3) tg1 t'(4) tg2 t'(5) di src n f,
        of env']
    show "length (items (handleApproveTransaction env' (tx_id tx')
                       (handleApproveTransaction env txId st))) = length (items st) + 1"
      using tw(1) .
    show "quantity_of (new_item_id env)
                (items (handleApproveTransaction env' (tx_id tx')
                       (handleApproveTransaction env txId st))) =
               Some (tx_quantity tx + tx_quantity tx')"
      using tw(2) .
    show "length (filter (matches_target target src)
                (items (handleApproveTransaction env' (tx_id tx')
                       (handleApproveTransaction env txId st)))) = 1"
      using tw(3) .
  }
next
  assume "targetWarehouseId tx = None \<or> targetWarehouseId tx = Some []"
  then show "items (handleApproveTransaction env txId st) = map (debit env tx) (items st)"
    by (rule transfer_untargeted [OF dt tx src])
qed

text \<open>
  The claim as stated fails: the id of the created item need not be fresh. The source
  item carries the id that the approval generates; the created item gets the same id,
  and a second transfer to the same target debits and credits both items, so that they
  hold 30 and 10 as before it, not 25 and 15.
\<close>

theorem transfer_id_collision_counterexample:
  "new_item_id env1 = ''it-1723-42'' \<and>
   map item_id (items st_clash) = [''it-1723-42''] \<and>
   map quantity (items st_clash) = [40] \<and>
   map item_id (items (handleApproveTransaction env1 ''TR-1'' st_clash)) =
     [''it-1723-42'', ''it-1723-42''] \<and>
   map item_warehouseId (items (handleApproveTransaction env1 ''TR-1'' st_clash)) = [''w1'', ''w2''] \<and>
   map quantity (items (handleApproveTransaction env1 ''TR-1'' st_clash)) = [30, 10] \<and>
   map tx_status (transactions (handleApproveTransaction env2 ''TR-2''
      (handleApproveTransaction env1 ''TR-1'' st_clash))) = [APPROVED, APPROVED] \<and>
   map quantity (items (handleApproveTransaction env2 ''TR-2''
      (handleApproveTransaction env1 ''TR-1'' st_clash))) = [30, 10]"
  by (simp add: handleApproveTransaction_def approve_tx_def approve_items_def st_clash_def
      clash_tx_def transfer_tx_def st0_def bolts_def env1_def env2_def new_item_id_def
      wh1_def wh2_def cat1_def or_default_def show_nat.simps Let_def enqueue_unawaited_def)

theorem transfer_merge_or_create_witness:
  "distinct (map tx_id (transactions st_tr)) \<and>
   transfer_tx ''TR-1'' 10 \<in> set (transactions st_tr) \<and>
   transfer_tx ''TR-2'' 5 \<in> set (transactions st_tr) \<and>
   distinct (map item_id (items st_tr)) \<and>
   find (\<lambda>i. item_id i = itemId (transfer_tx ''TR-1'' 10)) (items st_tr) =
     Some (bolts\<lparr>quantity := 40\<rparr>) \<and>
   find (matches_target ''w2'' (bolts\<lparr>quantity := 40\<rparr>)) (items st_tr) = None \<and>
   new_item_id env1 = ''it-1723-42'' \<and>
   items (handleApproveTransaction env1 ''TR-1'' st_tr) =
     [bolts\<lparr>quantity := 30, lastUpdated := ''t1''\<rparr>,
      bolts\<lparr>item_id := ''it-1723-42'', item_warehouseId := ''w2'', quantity := 10,
            barcode := ''ND-FAS-1723'', lastUpdated := ''t1''\<rparr>] \<and>
   length (items (handleApproveTransaction env2 ''TR-2''
      (handleApproveTransaction env1 ''TR-1'' st_tr))) = 2 \<and>
   quantity_of ''it-1723-42'' (items (handleApproveTransaction env2 ''TR-2''
      (handleApproveTransaction env1 ''TR-1'' st_tr))) = Some 15 \<and>
   find (matches_target ''w2'' (bolts\<lparr>quantity := 30\<rparr>)) (items st_merge) =
     Some (bolts\<lparr>item_id := ''it-2'', item_warehouseId := ''w2'', quantity := 10\<rparr>) \<and>
   items (handleApproveTransaction env2 ''TR-2'' st_merge) =
     [bolts\<lparr>quantity := 25, lastUpdated := ''t2''\<rparr>,
      bolts\<lparr>item_id := ''it-2'', item_warehouseId := ''w2'', quantity := 15, lastUpdated := ''t2''\<rparr>] \<and>
   quantity_of ''it-2'' (items (handleApproveTransaction env2 ''TR-2'' st_merge)) = Some 15 \<and>
   items (handleApproveTransaction env1 ''TR-9'' st_untargeted) =
     [bolts\<lparr>quantity := 6, lastUpdated := ''t1''\<rparr>]"
proof -
  have h: "distinct (map tx_id (transactions st_tr))"
    "transfer_tx ''TR-1'' 10 \<in> set (transactions st_tr)"
    "tx_id (transfer_tx ''TR-1'' 10) = ''TR-1''"
    "distinct (map item_id (items st_tr))"
    "find (\<lambda>i. item_id i = itemId (transfer_tx ''TR-1'' 10)) (items st_tr) =
       Some (bolts\<lparr>quantity := 40\<rparr>)"
    "tx_type (transfer_tx ''TR-1'' 10) = TRANSFER"
    by (simp_all add: st_tr_def st0_def transfer_tx_def bolts_def)
  have tg: "targetWarehouseId (transfer_tx ''TR-1'' 10) = Some ''w2''" "''w2'' \<noteq> []"
    by (simp_all add: transfer_tx_def)
  have n: "find (matches_target ''w2'' (bolts\<lparr>quantity := 40\<rparr>)) (items st_tr) = None"
    by (simp add: st_tr_def st0_def bolts_def matches_target_def)
  have id: "new_item_id env1 = ''it-1723-42''"
    by (simp add: new_item_id_def env1_def show_nat.simps)
  have f: "new_item_id env1 \<notin> item_id ` set (items st_tr)"
    unfolding id by (simp add: st_tr_def st0_def bolts_def)
  have t2: "transfer_tx ''TR-2'' 5 \<in> set (transactions st_tr)"
    "tx_id (transfer_tx ''TR-2'' 5) = ''TR-2''" "''TR-2'' \<noteq> ''TR-1''"
    "tx_type (transfer_tx ''TR-2'' 5) = TRANSFER"
    "targetWarehouseId (transfer_tx ''TR-2'' 5) = Some ''w2''"
    "itemId (transfer_tx ''TR-2'' 5) = itemId (transfer_tx ''TR-1'' 10)"
    "tx_quantity (transfer_tx ''TR-1'' 10) = 10" "tx_quantity (transfer_tx ''TR-2'' 5) = 5"
    by (simp_all add: st_tr_def st0_def transfer_tx_def)
  have c: "map (debit env1 (transfer_tx ''TR-1'' 10)) (items st_tr) =
             [bolts\<lparr>quantity := 30, lastUpdated := ''t1''\<rparr>]"
    "transferred_item env1 (warehouses st_tr) (categories st_tr) (bolts\<lparr>quantity := 40\<rparr>) ''w2'' 10 =
       bolts\<lparr>item_id := ''it-1723-42'', item_warehouseId := ''w2'', quantity := 10,
            barcode := ''ND-FAS-1723'', lastUpdated := ''t1''\<rparr>"
    "length (items st_tr) = 1"
    by (simp_all add: debit_def transferred_item_def new_item_id_def st_tr_def st0_def transfer_tx_def
        bolts_def env1_def wh1_def wh2_def cat1_def or_default_def show_nat.simps)
  have k: "tx_id (transfer_tx ''TR-2'' 5) \<noteq> ''TR-1''"
    by (simp add: transfer_tx_def)
  note T = transfer_merge_or_create [OF h, of "''w2''" env1]
  have i: "items (handleApproveTransaction env1 ''TR-1'' st_tr) =
      map (debit env1 (transfer_tx ''TR-1'' 10)) (items st_tr) @
      [transferred_item env1 (warehouses st_tr) (categories st_tr) (bolts\<lparr>quantity := 40\<rparr>) ''w2''
         (tx_quantity (transfer_tx ''TR-1'' 10))]"
    using T tg n by blast
  have tw: "length (items (handleApproveTransaction env2 (tx_id (transfer_tx ''TR-2'' 5))
                (handleApproveTransaction env1 ''TR-1'' st_tr))) = length (items st_tr) + 1 \<and>
            quantity_of (new_item_id env1)
              (items (handleApproveTransaction env2 (tx_id (transfer_tx ''TR-2'' 5))
                (handleApproveTransaction env1 ''TR-1'' st_tr))) =
              Some (tx_quantity (transfer_tx ''TR-1'' 10) + tx_quantity (transfer_tx ''TR-2'' 5))"
    using T tg n f t2(1,4,5,6) k by blast
  have hm: "distinct (map tx_id (transactions st_merge))"
    "transfer_tx ''TR-2'' 5 \<in> set (transactions st_merge)"
    "tx_id (transfer_tx ''TR-2'' 5) = ''TR-2''"
    "distinct (map item_id (items st_merge))"
    "find (\<lambda>i. item_id i = itemId (transfer_tx ''TR-2'' 5)) (items st_merge) =
       Some (bolts\<lparr>quantity := 30\<rparr>)"
    "tx_type (transfer_tx ''TR-2'' 5) = TRANSFER"
    by (simp_all add: st_merge_def st0_def transfer_tx_def bolts_def)
  have em: "find (matches_target ''w2'' (bolts\<lparr>quantity := 30\<rparr>)) (items st_merge) =
     Some (bolts\<lparr>item_id := ''it-2'', item_warehouseId := ''w2'', quantity := 10\<rparr>)"
    by (simp add: st_merge_def st0_def bolts_def matches_target_def)
  note M = transfer_merge_or_create [OF hm, of "''w2''" env2]
  have cm: "map (credit env2 ''it-2'' 5) (map (debit env2 (transfer_tx ''TR-2'' 5)) (items st_merge)) =
     [bolts\<lparr>quantity := 25, lastUpdated := ''t2''\<rparr>,
      bolts\<lparr>item_id := ''it-2'', item_warehouseId := ''w2'', quantity := 15, lastUpdated := ''t2''\<rparr>]"
    by (simp add: credit_def debit_def st_merge_def st0_def transfer_tx_def bolts_def env2_def)
  have im: "items (handleApproveTransaction env2 ''TR-2'' st_merge) =
      map (credit env2 (item_id (bolts\<lparr>item_id := ''it-2'', item_warehouseId := ''w2'', quantity := 10\<rparr>))
             (tx_quantity (transfer_tx ''TR-2'' 5)))
        (map (debit env2 (transfer_tx ''TR-2'' 5)) (items st_merge))"
    and qm: "quantity_of (item_id (bolts\<lparr>item_id := ''it-2'', item_warehouseId := ''w2'', quantity := 10\<rparr>))
        (items (handleApproveTransaction env2 ''TR-2'' st_merge)) =
      Some (if item_id (bolts\<lparr>item_id := ''it-2'', item_warehouseId := ''w2'', quantity := 10\<rparr>) =
               itemId (transfer_tx ''TR-2'' 5)
            then quantity (bolts\<lparr>item_id := ''it-2'', item_warehouseId := ''w2'', quantity := 10\<rparr>)
            else quantity (bolts\<lparr>item_id := ''it-2'', item_warehouseId := ''w2'', quantity := 10\<rparr>) +
                 tx_quantity (transfer_tx ''TR-2'' 5))"
    using M t2(5) tg(2) em by blast+
  have hu: "distinct (map tx_id (transactions st_untargeted))"
    "(transfer_tx ''TR-9'' 4)\<lparr>targetWarehouseId := None\<rparr> \<in> set (transactions st_untargeted)"
    "tx_id ((transfer_tx ''TR-9'' 4)\<lparr>targetWarehouseId := None\<rparr>) = ''TR-9''"
    "distinct (map item_id (items st_untargeted))"
    "find (\<lambda>i. item_id i = itemId ((transfer_tx ''TR-9'' 4)\<lparr>targetWarehouseId := None\<rparr>))
       (items st_untargeted) = Some bolts"
    "tx_type ((transfer_tx ''TR-9'' 4)\<lparr>targetWarehouseId := None\<rparr>) = TRANSFER"
    by (simp_all add: st_untargeted_def st0_def transfer_tx_def bolts_def)
  note U = transfer_merge_or_create [OF hu, of "''w2''" env1]
  have iu: "items (handleApproveTransaction env1 ''TR-9'' st_untargeted) =
      map (debit env1 ((transfer_tx ''TR-9'' 4)\<lparr>targetWarehouseId := None\<rparr>)) (items st_untargeted)"
    using U by simp
  have cu: "map (debit env1 ((transfer_tx ''TR-9'' 4)\<lparr>targetWarehouseId := None\<rparr>)) (items st_untargeted) =
      [bolts\<lparr>quantity := 6, lastUpdated := ''t1''\<rparr>]"
    by (simp add: debit_def st_untargeted_def st0_def transfer_tx_def bolts_def env1_def)
  have q2: "quantity_of ''it-2'' (items (handleApproveTransaction env2 ''TR-2'' st_merge)) = Some 15"
    using qm by (simp add: transfer_tx_def bolts_def)
  have i2: "items (handleApproveTransaction env2 ''TR-2'' st_merge) =
     [bolts\<lparr>quantity := 25, lastUpdated := ''t2''\<rparr>,
      bolts\<lparr>item_id := ''it-2'', item_warehouseId := ''w2'', quantity := 15, lastUpdated := ''t2''\<rparr>]"
    using im cm by (simp add: transfer_tx_def)
  have a: "items (handleApproveTransaction env1 ''TR-1'' st_tr) =
     [bolts\<lparr>quantity := 30, lastUpdated := ''t1''\<rparr>,
      bolts\<lparr>item_id := ''it-1723-42'', item_warehouseId := ''w2'', quantity := 10,
            barcode := ''ND-FAS-1723'', lastUpdated := ''t1''\<rparr>]"
    "length (items (handleApproveTransaction env2 ''TR-2''
      (handleApproveTransaction env1 ''TR-1'' st_tr))) = 2"
    "quantity_of ''it-1723-42'' (items (handleApproveTransaction env2 ''TR-2''
      (handleApproveTransaction env1 ''TR-1'' st_tr))) = Some 15"
    using i tw id by (simp_all add: c t2(2,7,8))
  show ?thesis
    using h(1,2,4,5) n id t2(1) a em i2 q2 iu cu by simp
qed

lemma stored_has_id:
  assumes "store_ok s" "b \<in> set (dbGetAll s)"
  shows "\<exists>k. sa_id b = Some k \<and> dbGet s k = Some b"
proof -
  obtain k where k: "(k, b) \<in> set (rows s)" using assms(2) by (auto simp: dbGetAll_def)
  have "distinct (map fst (rows s))"
    using assms(1) strict_sorted_iff [of "map fst (rows s)"] by (simp add: store_ok_def)
  then have "map_of (rows s) k = Some b" using k by (rule map_of_is_SomeI)
  then show ?thesis using store_ok_row [OF assms(1) k] by (auto simp: dbGet_def)
qed

lemma stored_same_id:
  assumes "store_ok s" "a \<in> set (dbGetAll s)" "b \<in> set (dbGetAll s)" "sa_id a = sa_id b"
  shows "a = b"
proof -
  obtain k where k: "sa_id b = Some k" "dbGet s k = Some b"
    using stored_has_id [OF assms(1,3)] by blast
  have "sa_id a = Some k" using assms(4) k(1) by (rule trans)
  then have "a = b" using row_same_id [OF assms(1) k(2)] assms(2) by blast
  then show ?thesis .
qed

lemma mark_each_all:
  assumes m: "\<And>s k. store_ok s \<Longrightarrow> store_ok (mark k s) \<and>
                 dbGetAll (mark k s) = map (\<lambda>b. if sa_id b = Some k then upd b else b) (dbGetAll s)"
      and u: "\<And>b. sa_id (upd b) = sa_id b"
  shows "store_ok s \<Longrightarrow> distinct (map sa_id as) \<Longrightarrow>
         store_ok (mark_each mark as s) \<and>
         dbGetAll (mark_each mark as s) =
           map (\<lambda>b. if sa_id b \<in> sa_id ` set as then upd b else b) (dbGetAll s)"
proof (induction as arbitrary: s)
  case Nil
  then show ?case by simp
next
  case (Cons a as)
  show ?case
  proof (cases "sa_id a")
    case None
    have "\<forall>b \<in> set (dbGetAll s). sa_id b \<noteq> None"
      using stored_has_id [OF Cons.prems(1)] by auto
    then have "map (\<lambda>b. if sa_id b \<in> sa_id ` set (a # as) then upd b else b) (dbGetAll s) =
               map (\<lambda>b. if sa_id b \<in> sa_id ` set as then upd b else b) (dbGetAll s)"
      using None by (intro map_cong) auto
    then show ?thesis using Cons.IH [of s] Cons.prems None by simp
  next
    case (Some k)
    have s1: "store_ok (mark k s)"
      and g1: "dbGetAll (mark k s) = map (\<lambda>b. if sa_id b = Some k then upd b else b) (dbGetAll s)"
      using m [OF Cons.prems(1), of k] by simp_all
    have k: "Some k \<notin> sa_id ` set as" using Cons.prems(2) Some by (auto simp: image_iff)
    have p: "(if sa_id (if sa_id b = Some k then upd b else b) \<in> sa_id ` set as
              then upd (if sa_id b = Some k then upd b else b)
              else (if sa_id b = Some k then upd b else b)) =
             (if sa_id b \<in> insert (Some k) (sa_id ` set as) then upd b else b)" for b
    proof (cases "sa_id b = Some k")
      case True
      then show ?thesis using k u [of b] by simp
    next
      case False
      then show ?thesis by simp
    qed
    have "map (\<lambda>b. if sa_id b \<in> sa_id ` set as then upd b else b)
            (map (\<lambda>b. if sa_id b = Some k then upd b else b) (dbGetAll s)) =
          map (\<lambda>b. if sa_id b \<in> sa_id ` set (a # as) then upd b else b) (dbGetAll s)"
      unfolding map_map comp_def p using Some by simp
    then show ?thesis
      using Cons.IH [OF s1] Cons.prems(2) g1 Some by simp
  qed
qed

lemma pending_ids:
  assumes "store_ok s" "b \<in> set (dbGetAll s)"
  shows "sa_id b \<in> sa_id ` set (getPendingSyncActions s) \<longleftrightarrow> sa_status b = S_PENDING"
proof
  assume "sa_id b \<in> sa_id ` set (getPendingSyncActions s)"
  then obtain a where a: "a \<in> set (dbGetAll s)" "sa_status a = S_PENDING" "sa_id b = sa_id a"
    by (auto simp: getPendingSyncActions_def)
  then have "a = b" using stored_same_id [OF assms(1) a(1) assms(2)] by simp
  then show "sa_status b = S_PENDING" using a(2) by simp
next
  assume "sa_status b = S_PENDING"
  then show "sa_id b \<in> sa_id ` set (getPendingSyncActions s)"
    using assms(2) by (auto simp: getPendingSyncActions_def)
qed

lemma mark_pending_synced:
  assumes "store_ok s"
  shows "dbGetAll (mark_each markSyncActionSynced (getPendingSyncActions s) s) =
         map (\<lambda>b. if sa_status b = S_PENDING then b\<lparr>sa_status := S_SYNCED\<rparr> else b) (dbGetAll s)"
proof -
  have "dbGetAll (mark_each markSyncActionSynced (getPendingSyncActions s) s) =
        map (\<lambda>b. if sa_id b \<in> sa_id ` set (getPendingSyncActions s)
                 then b\<lparr>sa_status := S_SYNCED\<rparr> else b) (dbGetAll s)"
  proof -
    have "store_ok (markSyncActionSynced k t) \<and>
          dbGetAll (markSyncActionSynced k t) =
            map (\<lambda>b. if sa_id b = Some k then b\<lparr>sa_status := S_SYNCED\<rparr> else b) (dbGetAll t)"
      if "store_ok t" for t k
      using markSynced_store_ok [OF that] markSynced_all [OF that] by blast
    then show ?thesis
      using mark_each_all [of markSyncActionSynced "\<lambda>b. b\<lparr>sa_status := S_SYNCED\<rparr>",
          OF _ _ assms pending_distinct [OF assms]]
      by simp
  qed
  also have "\<dots> = map (\<lambda>b. if sa_status b = S_PENDING then b\<lparr>sa_status := S_SYNCED\<rparr> else b)
                    (dbGetAll s)"
    using pending_ids [OF assms] by (intro map_cong) auto
  finally show ?thesis .
qed

lemma mark_pending_failed:
  assumes "store_ok s"
  shows "dbGetAll (mark_each markSyncActionFailed (getPendingSyncActions s) s) =
         map (\<lambda>b. if sa_status b = S_PENDING
                  then b\<lparr>sa_status := S_FAILED, retries := retries b + 1\<rparr> else b) (dbGetAll s)"
proof -
  have "dbGetAll (mark_each markSyncActionFailed (getPendingSyncActions s) s) =
        map (\<lambda>b. if sa_id b \<in> sa_id ` set (getPendingSyncActions s)
                 then b\<lparr>sa_status := S_FAILED, retries := retries b + 1\<rparr> else b) (dbGetAll s)"
  proof -
    have "store_ok (markSyncActionFailed k t) \<and>
          dbGetAll (markSyncActionFailed k t) =
            map (\<lambda>b. if sa_id b = Some k
                     then b\<lparr>sa_status := S_FAILED, retries := retries b + 1\<rparr> else b) (dbGetAll t)"
      if "store_ok t" for t k
      using markFailed_store_ok [OF that] markFailed_all [OF that] by blast
    then show ?thesis
      using mark_each_all [of markSyncActionFailed
          "\<lambda>b. b\<lparr>sa_status := S_FAILED, retries := retries b + 1\<rparr>",
          OF _ _ assms pending_distinct [OF assms]]
      by simp
  qed
  also have "\<dots> = map (\<lambda>b. if sa_status b = S_PENDING
                  then b\<lparr>sa_status := S_FAILED, retries := retries b + 1\<rparr> else b) (dbGetAll s)"
    using pending_ids [OF assms] by (intro map_cong) auto
  finally show ?thesis .
qed

lemma no_pending_after_synced:
  "filter (\<lambda>a. sa_status a = S_PENDING)
     (map (\<lambda>b. if sa_status b = S_PENDING then b\<lparr>sa_status := S_SYNCED\<rparr> else b) xs) = []"
  by (induction xs) simp_all

lemma no_pending_after_failed:
  "filter (\<lambda>a. sa_status a = S_PENDING)
     (map (\<lambda>b. if sa_status b = S_PENDING
              then b\<lparr>sa_status := S_FAILED, retries := retries b + 1\<rparr> else b) xs) = []"
  by (induction xs) simp_all

text \<open>
  What one cycle over a non-empty batch does, for a store as IndexedDB keeps it. The
  callback is called once with the whole batch. When it resolves, every PENDING action
  is SYNCED, the rest of the queue is untouched and the pending count is zero. When it
  throws, every PENDING action is FAILED with one more retry and the rest is
  untouched. Either way no action is PENDING afterwards.
\<close>

theorem sync_cycle_outcome:
  assumes "store_ok s" and "getPendingSyncActions s \<noteq> []"
  shows "\<exists>s' h'.
           syncNow [] (Some callback) (s, h) = Inr (s', h', [getPendingSyncActions s]) \<and>
           isSyncing h' = False \<and>
           getPendingSyncActions s' = [] \<and>
           (if callback (getPendingSyncActions s)
            then dbGetAll s' =
                   map (\<lambda>b. if sa_status b = S_PENDING then b\<lparr>sa_status := S_SYNCED\<rparr> else b)
                     (dbGetAll s) \<and>
                 pendingCount h' = 0
            else dbGetAll s' =
                   map (\<lambda>b. if sa_status b = S_PENDING
                            then b\<lparr>sa_status := S_FAILED, retries := retries b + 1\<rparr> else b)
                     (dbGetAll s) \<and>
                 pendingCount h' = length (getPendingSyncActions s))"
proof (cases "callback (getPendingSyncActions s)")
  case True
  let ?s' = "mark_each markSyncActionSynced (getPendingSyncActions s) s"
  let ?h' = "h\<lparr>pendingCount := length (getPendingSyncActions s)\<rparr>
              \<lparr>pendingCount := 0, isSyncing := False\<rparr>"
  have r: "syncNow [] (Some callback) (s, h) = Inr (?s', ?h', [getPendingSyncActions s])"
    using True assms(2)
    by (simp add: syncNow_def Let_def request_ok_def
        mark_loop_works [of markSyncActionSynced, OF markSynced_absent_case])
  have g: "dbGetAll ?s' =
           map (\<lambda>b. if sa_status b = S_PENDING then b\<lparr>sa_status := S_SYNCED\<rparr> else b) (dbGetAll s)"
    using assms(1) by (rule mark_pending_synced)
  have "getPendingSyncActions ?s' = []"
    unfolding getPendingSyncActions_def [of ?s'] g by (rule no_pending_after_synced)
  then show ?thesis using r g True by simp
next
  case False
  let ?s' = "mark_each markSyncActionFailed (getPendingSyncActions s) s"
  let ?h' = "h\<lparr>pendingCount := length (getPendingSyncActions s)\<rparr>\<lparr>isSyncing := False\<rparr>"
  have r: "syncNow [] (Some callback) (s, h) = Inr (?s', ?h', [getPendingSyncActions s])"
    using False assms(2)
    by (simp add: syncNow_def Let_def request_ok_def catch_block_def
        mark_loop_works [of markSyncActionFailed, OF markFailed_absent_case])
  have g: "dbGetAll ?s' =
           map (\<lambda>b. if sa_status b = S_PENDING
                    then b\<lparr>sa_status := S_FAILED, retries := retries b + 1\<rparr> else b) (dbGetAll s)"
    using assms(1) by (rule mark_pending_failed)
  have "getPendingSyncActions ?s' = []"
    unfolding getPendingSyncActions_def [of ?s'] g by (rule no_pending_after_failed)
  then show ?thesis using r g False by simp
qed

lemma two_pending_eval:
  "two_pending = \<lparr>rows = [(1, stored 1 actA), (2, stored 2 actB)], next_key = 3\<rparr>"
  by (simp add: two_pending_def enqueueSyncAction_def dbPut_def empty_store_def stored_def)

text \<open>
  Claim C5, at the input where the code departs from it. Two actions are pending and
  the callback throws: both are marked FAILED with one retry, as the claim says; but
  the next drain returns nothing, and the next cycle, though its callback would
  succeed, is not given them and leaves them FAILED.
\<close>

theorem failed_batch_not_redrained:
  "getPendingSyncActions two_pending = [stored 1 actA, stored 2 actB] \<and>
   syncNow [] (Some (\<lambda>batch. False)) (two_pending, hook0) =
     Inr (two_failed, hook0\<lparr>pendingCount := 2\<rparr>, [[stored 1 actA, stored 2 actB]]) \<and>
   getPendingSyncActions two_failed = [] \<and>
   syncNow [] (Some (\<lambda>batch. True)) (two_failed, hook0\<lparr>pendingCount := 2\<rparr>) =
     Inr (two_failed, hook0, [])"
  unfolding two_pending_eval
  by (simp add: syncNow_def catch_block_def request_ok_def awaited_mark_def
      getPendingSyncActions_def dbGetAll_def markSyncActionFailed_def
      dbGet_def dbPut_def two_failed_def hook0_def stored_def Let_def)

theorem sync_cycle_outcome_witness:
  "store_ok two_pending \<and>
   getPendingSyncActions two_pending = [stored 1 actA, stored 2 actB] \<and>
   syncNow [] (Some (\<lambda>batch. True)) (two_pending, hook0) =
     Inr (two_synced, hook0, [[stored 1 actA, stored 2 actB]]) \<and>
   dbGetAll two_synced =
     [(stored 1 actA)\<lparr>sa_status := S_SYNCED\<rparr>, (stored 2 actB)\<lparr>sa_status := S_SYNCED\<rparr>] \<and>
   getPendingSyncActions two_synced = [] \<and>
   syncNow [] (Some (\<lambda>batch. False)) (two_pending, hook0) =
     Inr (two_failed, hook0\<lparr>pendingCount := 2\<rparr>, [[stored 1 actA, stored 2 actB]]) \<and>
   dbGetAll two_failed =
     [(stored 1 actA)\<lparr>sa_status := S_FAILED, retries := 1\<rparr>,
      (stored 2 actB)\<lparr>sa_status := S_FAILED, retries := 1\<rparr>] \<and>
   getPendingSyncActions two_failed = []"
proof -
  have ok: "store_ok two_pending"
    unfolding two_pending_eval by (simp add: store_ok_def stored_def)
  have p: "getPendingSyncActions two_pending = [stored 1 actA, stored 2 actB]"
    unfolding two_pending_eval by (simp add: getPendingSyncActions_def dbGetAll_def stored_def)
  have ne: "getPendingSyncActions two_pending \<noteq> []" using p by simp
  have e1: "syncNow [] (Some (\<lambda>batch. True)) (two_pending, hook0) =
     Inr (two_synced, hook0, [[stored 1 actA, stored 2 actB]])"
    unfolding two_pending_eval
    by (simp add: syncNow_def request_ok_def awaited_mark_def
        getPendingSyncActions_def dbGetAll_def markSyncActionSynced_def
        dbGet_def dbPut_def two_synced_def hook0_def stored_def Let_def)
  have e2: "syncNow [] (Some (\<lambda>batch. False)) (two_pending, hook0) =
     Inr (two_failed, hook0\<lparr>pendingCount := 2\<rparr>, [[stored 1 actA, stored 2 actB]])"
    unfolding two_pending_eval
    by (simp add: syncNow_def catch_block_def request_ok_def awaited_mark_def
        getPendingSyncActions_def dbGetAll_def markSyncActionFailed_def
        dbGet_def dbPut_def two_failed_def hook0_def stored_def Let_def)
  have a: "dbGetAll two_pending = [stored 1 actA, stored 2 actB]"
    "sa_status (stored 1 actA) = S_PENDING" "sa_status (stored 2 actB) = S_PENDING"
    "retries (stored 1 actA) = 0" "retries (stored 2 actB) = 0"
    unfolding two_pending_eval by (simp_all add: dbGetAll_def stored_def)
  show ?thesis
    using ok p
      sync_cycle_outcome [OF ok ne, of "\<lambda>batch. True" hook0]
      sync_cycle_outcome [OF ok ne, of "\<lambda>batch. False" hook0]
    unfolding e1 e2
    by (simp add: a(1) stored_def)
qed

section \<open>The store invariant is kept\<close>

text \<open>
  \<open>store_ok\<close> holds of the empty store and is kept by every operation on the queue, by
  a sync cycle and by every handler: it holds of every store the application reaches.
\<close>

lemma empty_store_ok: "store_ok empty_store"
  by (simp add: store_ok_def empty_store_def)

lemma awaited_mark_store_ok:
  assumes "\<And>k t. store_ok t \<Longrightarrow> store_ok (mark k t)" and "store_ok s"
  shows "store_ok (fst (snd (awaited_mark mark k s outcomes)))"
  using assms by (simp add: awaited_mark_def split: prod.splits option.splits)

lemma mark_loop_store_ok:
  assumes m: "\<And>k t. store_ok t \<Longrightarrow> store_ok (mark k t)"
  shows "store_ok s \<Longrightarrow> store_ok (fst (snd (mark_loop mark as s outcomes)))"
proof (induction as arbitrary: s outcomes)
  case Nil
  then show ?case by simp
next
  case (Cons a as)
  show ?case
  proof (cases "sa_id a")
    case None
    then show ?thesis using Cons by simp
  next
    case (Some k)
    obtain fin s' os' where r: "awaited_mark mark k s outcomes = (fin, s', os')"
      by (cases "awaited_mark mark k s outcomes") auto
    have s': "store_ok s'"
      using awaited_mark_store_ok [of mark s k outcomes, OF m Cons.prems] r by simp
    show ?thesis
      using Some r s' Cons.IH [OF s'] by (cases fin) simp_all
  qed
qed

lemma catch_block_store_ok:
  assumes "store_ok s"
  shows "case catch_block pending s h outcomes of
           Inl (e, s', h', calls) \<Rightarrow> store_ok s' | Inr (s', h', calls) \<Rightarrow> store_ok s'"
proof -
  have "store_ok (fst (snd (mark_loop markSyncActionFailed pending s outcomes)))"
    using markFailed_store_ok assms by (rule mark_loop_store_ok)
  then show ?thesis
    by (cases "mark_loop markSyncActionFailed pending s outcomes")
       (simp add: catch_block_def split: bool.splits)
qed

lemma syncNow_store_ok:
  assumes "store_ok s"
  shows "case syncNow outcomes onSync (s, h) of
           Inl (e, s', h', calls) \<Rightarrow> store_ok s' | Inr (s', h', calls) \<Rightarrow> store_ok s'"
proof -
  obtain first rest where r: "request_ok outcomes = (first, rest)"
    by (cases "request_ok outcomes") auto
  let ?p = "getPendingSyncActions s"
  obtain fin s1 rest1 where l: "mark_loop markSyncActionSynced ?p s rest = (fin, s1, rest1)"
    by (cases "mark_loop markSyncActionSynced ?p s rest") auto
  have s1: "store_ok s1"
    using mark_loop_store_ok [of markSyncActionSynced s ?p rest, OF markSynced_store_ok assms] l
    by simp
  show ?thesis
    using assms s1 catch_block_store_ok [OF s1] catch_block_store_ok [OF assms]
    by (cases fin) (simp_all add: syncNow_def r l Let_def split: option.splits)
qed

lemma map_effect_invariant:
  assumes "\<And>x s. I s \<Longrightarrow> I (snd (f x s))" and "I s"
  shows "I (snd (map_effect f xs s))"
  using assms(2)
proof (induction xs arbitrary: s)
  case Nil
  then show ?case by simp
next
  case (Cons x xs)
  have "I (snd (f x s))" using Cons.prems by (rule assms(1))
  then have "I (snd (map_effect f xs (snd (f x s))))" by (rule Cons.IH)
  then show ?case by (cases "f x s"; cases "map_effect f xs (snd (f x s))") simp
qed

lemma enqueue_unawaited_store_ok:
  "store_ok q \<Longrightarrow> store_ok (enqueue_unawaited env a q)"
  by (simp add: enqueue_unawaited_def enqueue_store_ok)

lemma handlers_keep_store_ok:
  assumes "store_ok (syncQueue st)"
  shows "store_ok (syncQueue (handleStockInRequest env item qty st))"
    and "store_ok (syncQueue (handleStockOutRequest env item qty st))"
    and "store_ok (syncQueue (handleTransferRequest env item target qty st))"
    and "store_ok (syncQueue (handleApproveTransaction env txId st))"
    and "store_ok (syncQueue (handleRejectTransaction env txId reason st))"
proof -
  show "store_ok (syncQueue (handleStockInRequest env item qty st))"
    and "store_ok (syncQueue (handleStockOutRequest env item qty st))"
    and "store_ok (syncQueue (handleTransferRequest env item target qty st))"
    using assms
    by (simp_all add: handleStockInRequest_def handleStockOutRequest_def handleTransferRequest_def
        Let_def enqueue_unawaited_store_ok)
  have "store_ok (syncQueue (snd (map_effect
          (approve_tx env (items st) (warehouses st) (categories st) txId) (transactions st) st)))"
    using assms
    by (intro map_effect_invariant [where I = "\<lambda>s. store_ok (syncQueue s)"])
       (auto simp: approve_tx_def enqueue_unawaited_store_ok split: option.splits)
  then show "store_ok (syncQueue (handleApproveTransaction env txId st))"
    by (cases "map_effect (approve_tx env (items st) (warehouses st) (categories st) txId)
                 (transactions st) st")
       (simp add: handleApproveTransaction_def)
  have "store_ok (syncQueue (snd (map_effect
          (reject_tx env (items st) txId reason) (transactions st) st)))"
    using assms
    by (intro map_effect_invariant [where I = "\<lambda>s. store_ok (syncQueue s)"])
       (auto simp: reject_tx_def Let_def enqueue_unawaited_store_ok)
  then show "store_ok (syncQueue (handleRejectTransaction env txId reason st))"
    by (cases "map_effect (reject_tx env (items st) txId reason) (transactions st) st")
       (simp add: handleRejectTransaction_def)
qed

end
